theory Spec2Isabelle
  imports Main
begin

section \<open>Python values and the operations bughub applies to them\<close>

text \<open>
  bughub.py is Python 2. A Python string, \<open>str\<close> or \<open>unicode\<close>, is modelled as the list
  of its characters; HOL characters have 256 values, so the model covers text whose code
  points are below 256. Exceptions are values of \<open>error\<close>, and a computation that may raise
  has a result of type \<open>error + 'a\<close>.
\<close>

datatype error =
    KeyError
  | TypeError
  | ValueError
  | UnicodeEncodeError
  | UnicodeDecodeError
  | IndexError
  | URLError

definition ebind :: "error + 'a \<Rightarrow> ('a \<Rightarrow> error + 'b) \<Rightarrow> error + 'b" where
  "ebind m f = (case m of Inl e \<Rightarrow> Inl e | Inr x \<Rightarrow> f x)"

text \<open>Evaluating a sequence of computations from left to right stops at the first that
  raises.\<close>

fun collect_all :: "(error + 'a) list \<Rightarrow> error + 'a list" where
  "collect_all [] = Inr []"
| "collect_all (Inl e # ms) = Inl e"
| "collect_all (Inr x # ms) = ebind (collect_all ms) (\<lambda>xs. Inr (x # xs))"

subsection \<open>Strings\<close>

text \<open>\<open>s.split(sep)\<close> for a separator of one character: never an empty list.\<close>

fun split_on :: "char \<Rightarrow> string \<Rightarrow> string list" where
  "split_on sep [] = [[]]"
| "split_on sep (c # cs) =
     (if c = sep then [] # split_on sep cs
      else (case split_on sep cs of [] \<Rightarrow> [[c]] | w # ws \<Rightarrow> (c # w) # ws))"

text \<open>\<open>s.strip(chars)\<close>, and \<open>s.strip()\<close>, which removes the whitespace of a \<open>str\<close>.\<close>

definition strip_chars :: "string \<Rightarrow> string \<Rightarrow> string" where
  "strip_chars chars s =
     rev (dropWhile (\<lambda>c. c \<in> set chars) (rev (dropWhile (\<lambda>c. c \<in> set chars) s)))"

definition whitespace :: "string" where
  "whitespace = [CHR '' '', CHR 0x09, CHR 0x0A, CHR 0x0B, CHR 0x0C, CHR 0x0D]"

definition strip :: "string \<Rightarrow> string" where
  "strip s = strip_chars whitespace s"

text \<open>\<open>sep.join(parts)\<close>.\<close>

fun join :: "string \<Rightarrow> string list \<Rightarrow> string" where
  "join sep [] = []"
| "join sep [x] = x"
| "join sep (x # y # ys) = x @ sep @ join sep (y # ys)"

subsection \<open>JSON payloads\<close>

text \<open>
  What \<open>json.loads\<close> returns: \<open>None\<close>, a bool, an int, a unicode string, a list, or a dict
  (its entries, keys distinct; looked up with \<open>map_of\<close>). Numbers with a fraction or an
  exponent are outside the model.
\<close>

datatype json =
    JNull
  | JBool bool
  | JInt int
  | JStr string
  | JArr "json list"
  | JObj "(string \<times> json) list"

text \<open>\<open>obj[key]\<close> with a string key: only a dict accepts it.\<close>

fun py_getitem :: "json \<Rightarrow> string \<Rightarrow> error + json" where
  "py_getitem (JObj kvs) k = (case map_of kvs k of None \<Rightarrow> Inl KeyError | Some v \<Rightarrow> Inr v)"
| "py_getitem _ k = Inl TypeError"

text \<open>The truth value of an object in a condition.\<close>

fun truthy :: "json \<Rightarrow> bool" where
  "truthy JNull = False"
| "truthy (JBool b) = b"
| "truthy (JInt n) = (n \<noteq> 0)"
| "truthy (JStr s) = (s \<noteq> [])"
| "truthy (JArr xs) = (xs \<noteq> [])"
| "truthy (JObj kvs) = (kvs \<noteq> [])"

text \<open>\<open>for x in obj\<close>: a list gives its elements, a dict its keys, a string its characters.\<close>

fun py_iter :: "json \<Rightarrow> error + json list" where
  "py_iter (JArr xs) = Inr xs"
| "py_iter (JObj kvs) = Inr (map (\<lambda>kv. JStr (fst kv)) kvs)"
| "py_iter (JStr s) = Inr (map (\<lambda>c. JStr [c]) s)"
| "py_iter _ = Inl TypeError"

fun starts_with :: "string \<Rightarrow> string \<Rightarrow> bool" where
  "starts_with [] s = True"
| "starts_with (p # ps) [] = False"
| "starts_with (p # ps) (c # cs) = (p = c \<and> starts_with ps cs)"

fun substring :: "string \<Rightarrow> string \<Rightarrow> bool" where
  "substring p [] = (p = [])"
| "substring p (c # cs) = (starts_with p (c # cs) \<or> substring p cs)"

text \<open>\<open>name in obj\<close> for a string \<open>name\<close>: a key of a dict, an element of a list, a
  substring of a string.\<close>

fun py_contains :: "string \<Rightarrow> json \<Rightarrow> error + bool" where
  "py_contains k (JObj kvs) = Inr (k \<in> set (map fst kvs))"
| "py_contains k (JArr xs) = Inr (JStr k \<in> set xs)"
| "py_contains k (JStr s) = Inr (substring k s)"
| "py_contains k _ = Inl TypeError"

text \<open>\<open>x in CLOSED_STATES\<close>: membership in a set hashes \<open>x\<close>; lists and dicts are unhashable.\<close>

definition CLOSED_STATES :: "string list" where
  "CLOSED_STATES = [''RESOLVED'', ''VERIFIED'', ''CLOSED'']"

fun in_closed_states :: "json \<Rightarrow> error + bool" where
  "in_closed_states (JStr s) = Inr (s \<in> set CLOSED_STATES)"
| "in_closed_states (JArr xs) = Inl TypeError"
| "in_closed_states (JObj kvs) = Inl TypeError"
| "in_closed_states _ = Inr False"

text \<open>Decimal text of an integer, as \<open>str\<close> and \<open>format\<close> give it.\<close>

fun show_nat :: "nat \<Rightarrow> string" where
  "show_nat n =
     (if n < 10 then [''0123456789'' ! n]
      else show_nat (n div 10) @ [''0123456789'' ! (n mod 10)])"

declare show_nat.simps [simp del]

definition show_int :: "int \<Rightarrow> string" where
  "show_int i = (if i < 0 then CHR ''-'' # show_nat (nat (- i)) else show_nat (nat i))"

definition is_ascii :: "string \<Rightarrow> bool" where
  "is_ascii s = (\<forall>c \<in> set s. (of_char c :: nat) < 128)"

text \<open>
  \<open>"...{0}".format(v)\<close> on a \<open>str\<close> template: an int in decimal, a unicode string encoded
  as ASCII (which raises beyond ASCII), \<open>None\<close> and the bools by name; a list or a dict is
  rendered by \<open>repr\<close>, which is left as the parameter \<open>repr\<close>.
\<close>

fun format_field :: "(json \<Rightarrow> string) \<Rightarrow> json \<Rightarrow> error + string" where
  "format_field repr (JInt n) = Inr (show_int n)"
| "format_field repr (JStr s) = (if is_ascii s then Inr s else Inl UnicodeEncodeError)"
| "format_field repr JNull = Inr ''None''"
| "format_field repr (JBool b) = Inr (if b then ''True'' else ''False'')"
| "format_field repr v = Inr (repr v)"


section \<open>Sources and their definitions\<close>

text \<open>
  A constructor argument or filter value: a \<open>str\<close>, an int, or a list of \<open>str\<close>.
  \<open>parse_source\<close> passes every keyword value as a list; \<open>get_issues\<close> adds the int 100.
  A dict of filters is the list of its items in the dict's iteration order, which
  Python 2 does not specify; the list order below stands for it, and no statement of this
  theory depends on it.
\<close>

datatype fval = FStr string | FInt int | FList "string list"

text \<open>\<open>Github(user, repo, **filters)\<close> and \<open>Bugzilla(**filters)\<close>.\<close>

datatype source =
    Github fval fval "(string \<times> fval) list"
  | Bugzilla "(string \<times> fval) list"

definition without :: "string \<Rightarrow> (string \<times> 'v) list \<Rightarrow> (string \<times> 'v) list" where
  "without k kvs = filter (\<lambda>kv. fst kv \<noteq> k) kvs"

text \<open>
  The call \<open>source_class(*args, **kwargs)\<close> binds the parameters of
  \<open>__init__(self, user, repo, **filters)\<close>: positional arguments first, then each keyword
  that names a parameter; a parameter bound twice or left unbound, or a positional
  argument too many, is a \<open>TypeError\<close>. The other keywords are \<open>filters\<close>.
\<close>

definition Github_init :: "string list \<Rightarrow> (string \<times> fval) list \<Rightarrow> error + source" where
  "Github_init args kwargs =
     (if 2 < length args \<or> ''self'' \<in> set (map fst kwargs) then Inl TypeError
      else case args of
        [] \<Rightarrow>
          (case (map_of kwargs ''user'', map_of kwargs ''repo'') of
             (Some u, Some r) \<Rightarrow> Inr (Github u r (without ''user'' (without ''repo'' kwargs)))
           | _ \<Rightarrow> Inl TypeError)
      | [u] \<Rightarrow>
          (if ''user'' \<in> set (map fst kwargs) then Inl TypeError
           else case map_of kwargs ''repo'' of
             Some r \<Rightarrow> Inr (Github (FStr u) r (without ''repo'' kwargs))
           | None \<Rightarrow> Inl TypeError)
      | u # r # _ \<Rightarrow>
          (if ''user'' \<in> set (map fst kwargs) \<or> ''repo'' \<in> set (map fst kwargs)
           then Inl TypeError
           else Inr (Github (FStr u) (FStr r) kwargs)))"

definition Bugzilla_init :: "string list \<Rightarrow> (string \<times> fval) list \<Rightarrow> error + source" where
  "Bugzilla_init args kwargs =
     (if args \<noteq> [] \<or> ''self'' \<in> set (map fst kwargs) then Inl TypeError
      else Inr (Bugzilla kwargs))"

definition SOURCE_TYPES ::
  "string \<Rightarrow> (string list \<Rightarrow> (string \<times> fval) list \<Rightarrow> error + source) option" where
  "SOURCE_TYPES name =
     (if name = ''github'' then Some Github_init
      else if name = ''bugzilla'' then Some Bugzilla_init
      else None)"

text \<open>\<open>kwargs[key].append(val)\<close> on a \<open>defaultdict(list)\<close>.\<close>

fun append_kwarg ::
  "string \<Rightarrow> string \<Rightarrow> (string \<times> string list) list \<Rightarrow> (string \<times> string list) list" where
  "append_kwarg key val [] = [(key, [val])]"
| "append_kwarg key val ((k, vs) # rest) =
     (if k = key then (k, vs @ [val]) # rest else (k, vs) # append_kwarg key val rest)"

text \<open>The loop of \<open>parse_source\<close>; \<open>key, val = bit.split("=")\<close> raises \<open>ValueError\<close>
  unless the split has exactly two parts.\<close>

fun parse_bits ::
  "string list \<Rightarrow> string list \<Rightarrow> (string \<times> string list) list \<Rightarrow>
   error + (string list \<times> (string \<times> string list) list)" where
  "parse_bits [] args kwargs = Inr (args, kwargs)"
| "parse_bits (bit' # bits) args kwargs =
     (if CHR ''='' \<in> set bit'
      then (case split_on CHR ''='' bit' of
              [key, val] \<Rightarrow> parse_bits bits args (append_kwarg key val kwargs)
            | _ \<Rightarrow> Inl ValueError)
      else parse_bits bits (args @ [bit']) kwargs)"

definition parse_source :: "string \<Rightarrow> error + source" where
  "parse_source defn =
     (case split_on CHR '':'' defn of
        [] \<Rightarrow> Inl IndexError
      | name # bits \<Rightarrow>
          (case SOURCE_TYPES name of
             None \<Rightarrow> Inl KeyError
           | Some source_class \<Rightarrow>
               ebind (parse_bits bits [] [])
                 (\<lambda>(args, kwargs). source_class args (map (\<lambda>(k, vs). (k, FList vs)) kwargs))))"

section \<open>Requests\<close>

subsection \<open>Query strings\<close>

definition always_safe :: "string" where
  "always_safe =
     ''ABCDEFGHIJKLMNOPQRSTUVWXYZabcdefghijklmnopqrstuvwxyz0123456789_.-''"

definition hex_digit :: "nat \<Rightarrow> char" where
  "hex_digit n = ''0123456789ABCDEF'' ! (n mod 16)"

text \<open>\<open>urllib.quote_plus\<close>: a safe character is kept, a space becomes \<open>+\<close>, any other
  character its \<open>%XX\<close> escape.\<close>

definition quote_plus :: "string \<Rightarrow> string" where
  "quote_plus s =
     concat (map (\<lambda>c. if c \<in> set always_safe then [c]
                       else if c = CHR '' '' then ''+''
                       else [CHR ''%'', hex_digit (of_char c div 16), hex_digit (of_char c)]) s)"

text \<open>\<open>urllib.urlencode(query, doseq=True)\<close>: one \<open>key=value\<close> for a \<open>str\<close> or an int, one
  for every element of a list.\<close>

fun query_items :: "string \<times> fval \<Rightarrow> string list" where
  "query_items (k, FStr v) = [quote_plus k @ ''='' @ quote_plus v]"
| "query_items (k, FInt n) = [quote_plus k @ ''='' @ quote_plus (show_int n)]"
| "query_items (k, FList vs) = map (\<lambda>elt. quote_plus k @ ''='' @ quote_plus elt) vs"

definition urlencode :: "(string \<times> fval) list \<Rightarrow> string" where
  "urlencode query = join ''&'' (concat (map query_items query))"

text \<open>\<open>d.setdefault(k, v)\<close> and \<open>d[k] = v\<close> on a dict.\<close>

definition setdefault :: "string \<Rightarrow> 'v \<Rightarrow> (string \<times> 'v) list \<Rightarrow> (string \<times> 'v) list" where
  "setdefault k v kvs = (if k \<in> set (map fst kvs) then kvs else kvs @ [(k, v)])"

fun setitem :: "string \<Rightarrow> 'v \<Rightarrow> (string \<times> 'v) list \<Rightarrow> (string \<times> 'v) list" where
  "setitem k v [] = [(k, v)]"
| "setitem k v ((k', v') # rest) =
     (if k' = k then (k', v) # rest else (k', v') # setitem k v rest)"

subsection \<open>The network and the library\<close>

text \<open>
  A response of \<open>urlopen\<close>: \<open>body\<close> is the outcome of \<open>json.loads(response.read())\<close>, and
  \<open>link\<close> the \<open>Link\<close> header, if the response has one.

  \<open>urlopen\<close> takes the state of the world and a URL to a response, or the exception it
  raises, and the next state of the world. \<open>urljoin\<close> of \<open>urlparse\<close> and \<open>repr\<close> (here
  \<open>py_repr\<close>) are library functions taken as they are.
\<close>

record response =
  body :: "error + json"
  link :: "string option"

record 'w lib =
  urlopen :: "'w \<Rightarrow> string \<Rightarrow> (error + response) \<times> 'w"
  urljoin :: "string \<Rightarrow> string \<Rightarrow> string"
  py_repr :: "json \<Rightarrow> string"

subsection \<open>The Link header\<close>

definition rel_next :: "string" where
  "rel_next = ''rel='' @ [CHR 0x22] @ ''next'' @ [CHR 0x22]"

text \<open>
  One element of the sequence handed to \<open>dict\<close>:
  \<open>reversed([s.strip() for s in l.strip().split(";")])\<close>. \<open>dict\<close> takes an element of
  exactly two items, the first the key, and raises \<open>ValueError\<close> on any other length.
\<close>

definition link_item :: "string \<Rightarrow> error + (string \<times> string)" where
  "link_item l =
     (case rev (map strip (split_on CHR '';'' (strip l))) of
        [k, v] \<Rightarrow> Inr (k, v)
      | _ \<Rightarrow> Inl ValueError)"

text \<open>The assignment to \<open>url\<close> that ends the loop body of \<open>Github.get_issues\<close>; in a dict
  built from a sequence a later item replaces an earlier one of the same key.\<close>

definition next_url :: "string option \<Rightarrow> error + string" where
  "next_url header =
     ebind (collect_all (map link_item
              (split_on CHR '','' (case header of None \<Rightarrow> '';'' | Some h \<Rightarrow> h))))
       (\<lambda>items. Inr (strip_chars ''<>''
          (case map_of (rev items) rel_next of None \<Rightarrow> [] | Some u \<Rightarrow> u)))"

section \<open>The normalized record\<close>

text \<open>
  A value held by a normalized record: a \<open>str\<close> the program supplies itself, a list of
  \<open>str\<close> (a constructor argument bound by keyword), or a value taken from the JSON payload
  unchanged. The record is the dict literal of \<open>get_all\<close>, kept as the list of its items.
\<close>

datatype cell = PStr string | PList "string list" | PJson json

type_synonym normalized = "(string \<times> cell) list"

definition fieldnames :: "string list" where
  "fieldnames = [''source'', ''id'', ''url'', ''assigned'', ''status'', ''title'',
     ''product'', ''module'', ''patch'', ''feature'']"

fun text_or_int :: "cell \<Rightarrow> bool" where
  "text_or_int (PStr s) = True"
| "text_or_int (PJson (JStr s)) = True"
| "text_or_int (PJson (JInt n)) = True"
| "text_or_int _ = False"

definition yn :: "bool \<Rightarrow> cell" where
  "yn b = PStr (if b then ''y'' else ''n'')"

subsection \<open>Github\<close>

text \<open>
  \<open>Github.is_enhancement\<close> draws from the generator
  \<open>(i["name"] == "task" for i in issue["labels"])\<close>. The generator is the list of the
  outcomes its items would have, each the comparison's result or the exception that
  \<open>i["name"]\<close> raises; an item is evaluated only when \<open>next\<close> reaches it, so the items
  after the first true one are never looked at.
\<close>

fun is_enhancement :: "(error + bool) list \<Rightarrow> error + string" where
  "is_enhancement [] = Inr ''n''"
| "is_enhancement (Inl e # rest) = Inl e"
| "is_enhancement (Inr True # rest) = Inr ''y''"
| "is_enhancement (Inr False # rest) = is_enhancement rest"

definition label_is_task :: "json \<Rightarrow> error + bool" where
  "label_is_task i = ebind (py_getitem i ''name'') (\<lambda>name. Inr (name = JStr ''task''))"

text \<open>The dict literal of \<open>Github.get_all\<close>, its values evaluated in the order written;
  \<open>repo\<close> is \<open>self.repo\<close>.\<close>

fun arg_cell :: "fval \<Rightarrow> cell" where
  "arg_cell (FStr s) = PStr s"
| "arg_cell (FInt n) = PJson (JInt n)"
| "arg_cell (FList l) = PList l"

definition Github_record :: "fval \<Rightarrow> json \<Rightarrow> error + normalized" where
  "Github_record repo issue =
     ebind (py_getitem issue ''number'') (\<lambda>number.
     ebind (py_getitem issue ''html_url'') (\<lambda>html_url.
     ebind (py_getitem issue ''assignee'') (\<lambda>assignee.
     ebind (if truthy assignee
            then ebind (py_getitem assignee ''login'') (\<lambda>login. Inr (PJson login))
            else Inr (PStr ''nobody'')) (\<lambda>assigned.
     ebind (py_getitem issue ''state'') (\<lambda>state.
     ebind (py_getitem issue ''title'') (\<lambda>title.
     ebind (py_getitem issue ''pull_request'') (\<lambda>pull_request.
     ebind (py_getitem pull_request ''html_url'') (\<lambda>pr_url.
     ebind (py_getitem issue ''labels'') (\<lambda>labels_value.
     ebind (py_iter labels_value) (\<lambda>labels.
     ebind (is_enhancement (map label_is_task labels)) (\<lambda>feature.
     Inr [(''source'', PStr ''github''),
          (''id'', PJson number),
          (''url'', PJson html_url),
          (''assigned'', assigned),
          (''status'', PJson state),
          (''title'', PJson title),
          (''product'', arg_cell repo),
          (''module'', arg_cell repo),
          (''patch'', yn (truthy pr_url)),
          (''feature'', PStr feature)])))))))))))"

subsection \<open>Bugzilla\<close>

definition BUG_URL_FORMAT :: "string" where
  "BUG_URL_FORMAT = ''https://bugzilla.mozilla.org/show_bug.cgi?id=''"

text \<open>The dict literal of \<open>Bugzilla.get_all\<close>; \<open>BUG_URL_FORMAT\<close> is the template up to its
  only placeholder, which ends it.\<close>

definition Bugzilla_record :: "(json \<Rightarrow> string) \<Rightarrow> json \<Rightarrow> error + normalized" where
  "Bugzilla_record repr issue =
     ebind (py_getitem issue ''id'') (\<lambda>bug_id.
     ebind (format_field repr bug_id) (\<lambda>id_text.
     ebind (py_getitem issue ''assigned_to'') (\<lambda>assigned_to.
     ebind (py_getitem assigned_to ''name'') (\<lambda>name.
     ebind (py_getitem issue ''status'') (\<lambda>status.
     ebind (in_closed_states status) (\<lambda>closed.
     ebind (py_getitem issue ''summary'') (\<lambda>summary.
     ebind (py_getitem issue ''product'') (\<lambda>product.
     ebind (py_getitem issue ''component'') (\<lambda>component.
     ebind (py_contains ''attachments'' issue) (\<lambda>has_attachments.
     ebind (py_getitem issue ''keywords'') (\<lambda>keywords.
     ebind (py_contains ''feature'' keywords) (\<lambda>is_feature.
     Inr [(''source'', PStr ''bugzilla''),
          (''id'', PJson bug_id),
          (''url'', PStr (BUG_URL_FORMAT @ id_text)),
          (''assigned'', PJson name),
          (''status'', PStr (if closed then ''closed'' else ''open'')),
          (''title'', PJson summary),
          (''product'', PJson product),
          (''module'', PJson component),
          (''patch'', yn has_attachments),
          (''feature'', yn is_feature)]))))))))))))"


section \<open>The generators\<close>

text \<open>
  A generator runs interleaved with the loop that consumes it: \<open>get_issues\<close> is consumed
  by \<open>get_all\<close>, and \<open>get_all\<close> by the loop of \<open>main\<close> that writes the rows. A consumer is a
  function from its state and an item to its next state, or to the exception its loop
  body raises, which abandons the generator. A run returns the consumer's last state, the
  exception that ended it if one did, and the state of the world.
\<close>

fun feed :: "('s \<Rightarrow> 'a \<Rightarrow> error + 's) \<Rightarrow> 's \<Rightarrow> 'a list \<Rightarrow> 's \<times> error option" where
  "feed f s [] = (s, None)"
| "feed f s (x # xs) = (case f s x of Inl e \<Rightarrow> (s, Some e) | Inr s' \<Rightarrow> feed f s' xs)"

text \<open>The consumer that keeps what is yielded, in order.\<close>

definition yield :: "'a list \<Rightarrow> 'a \<Rightarrow> error + 'a list" where
  "yield s x = Inr (s @ [x])"

subsection \<open>Github\<close>

definition Github_API_BASE :: "string" where
  "Github_API_BASE = ''https://api.github.com/''"

text \<open>The first URL of \<open>Github.get_issues\<close>; \<open>"/".join\<close> raises \<open>TypeError\<close> on an item
  that is not a string.\<close>

definition Github_url :: "'w lib \<Rightarrow> fval \<Rightarrow> fval \<Rightarrow> (string \<times> fval) list \<Rightarrow> error + string" where
  "Github_url lib user repo filters =
     (let filters' = setdefault ''per_page'' (FInt 100) filters
      in case (user, repo) of
           (FStr u, FStr r) \<Rightarrow>
             Inr (urljoin lib Github_API_BASE (join ''/'' [''repos'', u, r, ''issues''])
                  @ ''?'' @ urlencode filters')
         | _ \<Rightarrow> Inl TypeError)"

text \<open>
  The loop \<open>while url:\<close> of \<open>Github.get_issues\<close>. It need not end: the first argument
  bounds the number of pages fetched, and \<open>None\<close> is a run that needs more.
\<close>

fun Github_pages ::
  "nat \<Rightarrow> 'w lib \<Rightarrow> ('s \<Rightarrow> json \<Rightarrow> error + 's) \<Rightarrow> 's \<Rightarrow> 'w \<Rightarrow> string \<Rightarrow>
   ('s \<times> error option \<times> 'w) option" where
  "Github_pages 0 lib f s w url = (if url = [] then Some (s, None, w) else None)"
| "Github_pages (Suc n) lib f s w url =
     (if url = [] then Some (s, None, w)
      else case urlopen lib w url of
        (Inl e, w') \<Rightarrow> Some (s, Some e, w')
      | (Inr resp, w') \<Rightarrow>
          (case ebind (body resp) py_iter of
             Inl e \<Rightarrow> Some (s, Some e, w')
           | Inr issues \<Rightarrow>
               (case feed f s issues of
                  (s', Some e) \<Rightarrow> Some (s', Some e, w')
                | (s', None) \<Rightarrow>
                    (case next_url (link resp) of
                       Inl e \<Rightarrow> Some (s', Some e, w')
                     | Inr url' \<Rightarrow> Github_pages n lib f s' w' url'))))"

definition Github_get_issues ::
  "nat \<Rightarrow> 'w lib \<Rightarrow> ('s \<Rightarrow> json \<Rightarrow> error + 's) \<Rightarrow> 's \<Rightarrow> 'w \<Rightarrow>
   fval \<Rightarrow> fval \<Rightarrow> (string \<times> fval) list \<Rightarrow> ('s \<times> error option \<times> 'w) option" where
  "Github_get_issues n lib f s w user repo filters =
     (case Github_url lib user repo filters of
        Inl e \<Rightarrow> Some (s, Some e, w)
      | Inr url \<Rightarrow> Github_pages n lib f s w url)"

definition Github_get_all ::
  "nat \<Rightarrow> 'w lib \<Rightarrow> ('s \<Rightarrow> normalized \<Rightarrow> error + 's) \<Rightarrow> 's \<Rightarrow> 'w \<Rightarrow>
   fval \<Rightarrow> fval \<Rightarrow> (string \<times> fval) list \<Rightarrow> ('s \<times> error option \<times> 'w) option" where
  "Github_get_all n lib f s w user repo filters =
     Github_get_issues n lib (\<lambda>s issue. ebind (Github_record repo issue) (f s))
       s w user repo filters"

subsection \<open>Bugzilla\<close>

definition Bugzilla_API_BASE :: "string" where
  "Bugzilla_API_BASE = ''https://api-dev.bugzilla.mozilla.org/latest/bug''"

definition include_fields :: "string" where
  "include_fields = ''id,assigned_to,status,summary,product,component,attachments,keywords''"

text \<open>The URL of \<open>Bugzilla.get_issues\<close>: the copy of the filters that receives
  \<open>include_fields\<close> is not the dict that is encoded.\<close>

definition Bugzilla_url :: "(string \<times> fval) list \<Rightarrow> string" where
  "Bugzilla_url self_filters =
     (let filters = setitem ''include_fields'' (FStr include_fields) self_filters
      in Bugzilla_API_BASE @ ''?'' @ urlencode self_filters)"

definition Bugzilla_get_issues ::
  "'w lib \<Rightarrow> ('s \<Rightarrow> json \<Rightarrow> error + 's) \<Rightarrow> 's \<Rightarrow> 'w \<Rightarrow> (string \<times> fval) list \<Rightarrow>
   's \<times> error option \<times> 'w" where
  "Bugzilla_get_issues lib f s w filters =
     (case urlopen lib w (Bugzilla_url filters) of
        (Inl e, w') \<Rightarrow> (s, Some e, w')
      | (Inr resp, w') \<Rightarrow>
          (case ebind (body resp) (\<lambda>payload. ebind (py_getitem payload ''bugs'') py_iter) of
             Inl e \<Rightarrow> (s, Some e, w')
           | Inr bugs \<Rightarrow> (case feed f s bugs of (s', r) \<Rightarrow> (s', r, w'))))"

definition Bugzilla_get_all ::
  "'w lib \<Rightarrow> ('s \<Rightarrow> normalized \<Rightarrow> error + 's) \<Rightarrow> 's \<Rightarrow> 'w \<Rightarrow> (string \<times> fval) list \<Rightarrow>
   's \<times> error option \<times> 'w" where
  "Bugzilla_get_all lib f s w filters =
     Bugzilla_get_issues lib (\<lambda>s issue. ebind (Bugzilla_record (py_repr lib) issue) (f s))
       s w filters"

fun get_all ::
  "nat \<Rightarrow> 'w lib \<Rightarrow> ('s \<Rightarrow> normalized \<Rightarrow> error + 's) \<Rightarrow> 's \<Rightarrow> 'w \<Rightarrow> source \<Rightarrow>
   ('s \<times> error option \<times> 'w) option" where
  "get_all n lib f s w (Github user repo filters) = Github_get_all n lib f s w user repo filters"
| "get_all n lib f s w (Bugzilla filters) = Some (Bugzilla_get_all lib f s w filters)"

section \<open>The driver\<close>

text \<open>UTF-8 of a character below 256.\<close>

definition utf8 :: "string \<Rightarrow> string" where
  "utf8 s =
     concat (map (\<lambda>c. if (of_char c :: nat) < 128 then [c]
                       else [char_of (192 + (of_char c :: nat) div 64),
                             char_of (128 + (of_char c :: nat) mod 64)]) s)"

text \<open>
  \<open>v.encode("utf8") if hasattr(v, "encode") else v\<close>: a unicode string is encoded; a
  \<open>str\<close> is first decoded as ASCII, which raises beyond ASCII; any other value has no
  \<open>encode\<close>.
\<close>

fun encode :: "cell \<Rightarrow> error + cell" where
  "encode (PStr s) = (if is_ascii s then Inr (PStr s) else Inl UnicodeDecodeError)"
| "encode (PJson (JStr s)) = Inr (PStr (utf8 s))"
| "encode v = Inr v"

text \<open>\<open>csv.DictWriter.writerow\<close> hands the underlying writer the list
  \<open>[rowdict.get(key, "") for key in fieldnames]\<close>, after a \<open>ValueError\<close> for a key that is
  not a field name.\<close>

definition DictWriter_row :: "(string \<times> cell) list \<Rightarrow> error + cell list" where
  "DictWriter_row rowdict =
     (if \<exists>k \<in> set (map fst rowdict). k \<notin> set fieldnames then Inl ValueError
      else Inr (map (\<lambda>key. case map_of rowdict key of None \<Rightarrow> PStr [] | Some v \<Rightarrow> v)
                  fieldnames))"

text \<open>The body of the loop of \<open>main\<close>; the output is the list of the rows written.\<close>

definition encode_items :: "normalized \<Rightarrow> error + (string \<times> cell) list" where
  "encode_items issue =
     collect_all (map (\<lambda>(k, v). ebind (encode v) (\<lambda>v'. Inr (k, v'))) issue)"

definition write_issue :: "cell list list \<Rightarrow> normalized \<Rightarrow> error + cell list list" where
  "write_issue out issue =
     ebind (encode_items issue) (\<lambda>rowdict.
     ebind (DictWriter_row rowdict) (\<lambda>row. Inr (out @ [row])))"

text \<open>\<open>chain(*[source.get_all() for source in sources])\<close>, drained by the loop.\<close>

fun run_sources ::
  "nat \<Rightarrow> 'w lib \<Rightarrow> source list \<Rightarrow> cell list list \<Rightarrow> 'w \<Rightarrow>
   (cell list list \<times> error option \<times> 'w) option" where
  "run_sources n lib [] out w = Some (out, None, w)"
| "run_sources n lib (src # rest) out w =
     (case get_all n lib write_issue out w src of
        None \<Rightarrow> None
      | Some (out', Some e, w') \<Rightarrow> Some (out', Some e, w')
      | Some (out', None, w') \<Rightarrow> run_sources n lib rest out' w')"

text \<open>\<open>main\<close>, from \<open>args.sources\<close> on: every definition is parsed before anything is
  written.\<close>

definition main ::
  "nat \<Rightarrow> 'w lib \<Rightarrow> 'w \<Rightarrow> string list \<Rightarrow> (cell list list \<times> error option \<times> 'w) option" where
  "main n lib w args_sources =
     (case collect_all (map parse_source args_sources) of
        Inl e \<Rightarrow> Some ([], Some e, w)
      | Inr sources \<Rightarrow>
          (case DictWriter_row (zip fieldnames (map PStr fieldnames)) of
             Inl e \<Rightarrow> Some ([], Some e, w)
           | Inr header \<Rightarrow> run_sources n lib sources [header] w))"



section \<open>Notions used to state the properties\<close>

subsection \<open>Source definitions\<close>

text \<open>
  The segments after the first of a definition \<open>type:pos1:...:key1=val1:...\<close>: a segment
  without \<open>=\<close> is positional; in a segment with \<open>=\<close> the key is the text left of the
  first \<open>=\<close> and the value the text right of it.
\<close>

definition positional :: "string list \<Rightarrow> string list" where
  "positional bits = filter (\<lambda>b. CHR ''='' \<notin> set b) bits"

definition assignments :: "string list \<Rightarrow> (string \<times> string) list" where
  "assignments bits =
     map (\<lambda>b. (takeWhile (\<lambda>c. c \<noteq> CHR ''='') b, tl (dropWhile (\<lambda>c. c \<noteq> CHR ''='') b)))
       (filter (\<lambda>b. CHR ''='' \<in> set b) bits)"

definition values_of :: "string \<Rightarrow> string list \<Rightarrow> string list" where
  "values_of key bits = map snd (filter (\<lambda>kv. fst kv = key) (assignments bits))"

text \<open>The parameters of the two constructors: the number of positional arguments, and
  the names a filter cannot take because a parameter has them.\<close>

definition arity :: "string \<Rightarrow> nat" where
  "arity name = (if name = ''github'' then 2 else 0)"

definition parameter_names :: "string \<Rightarrow> string list" where
  "parameter_names name = (if name = ''github'' then [''self'', ''user'', ''repo''] else [''self''])"

text \<open>A definition follows the grammar if its type is registered, no segment has more
  than one \<open>=\<close>, and its positional segments are as many as the constructor takes.\<close>

definition grammatical :: "string \<Rightarrow> bool" where
  "grammatical defn =
     (case split_on CHR '':'' defn of
        [] \<Rightarrow> False
      | name # bits \<Rightarrow>
          (name = ''github'' \<or> name = ''bugzilla'') \<and>
          (\<forall>b \<in> set bits. count_list b CHR ''='' \<le> 1) \<and>
          length (positional bits) = arity name)"

text \<open>Some filter of the definition has the name of a parameter of the constructor.\<close>

definition shadows_parameter :: "string \<Rightarrow> bool" where
  "shadows_parameter defn =
     (case split_on CHR '':'' defn of
        [] \<Rightarrow> False
      | name # bits \<Rightarrow> (\<exists>kv \<in> set (assignments bits). fst kv \<in> set (parameter_names name)))"

fun source_type :: "source \<Rightarrow> string" where
  "source_type (Github user repo filters) = ''github''"
| "source_type (Bugzilla filters) = ''bugzilla''"

fun source_args :: "source \<Rightarrow> fval list" where
  "source_args (Github user repo filters) = [user, repo]"
| "source_args (Bugzilla filters) = []"

fun source_filters :: "source \<Rightarrow> (string \<times> fval) list" where
  "source_filters (Github user repo filters) = filters"
| "source_filters (Bugzilla filters) = filters"

text \<open>Every string a source holds: its arguments, its filter names and filter values.\<close>

fun fval_strings :: "fval \<Rightarrow> string list" where
  "fval_strings (FStr s) = [s]"
| "fval_strings (FInt n) = []"
| "fval_strings (FList l) = l"

definition source_strings :: "source \<Rightarrow> string list" where
  "source_strings src =
     concat (map fval_strings (source_args src)) @
     concat (map (\<lambda>kv. fst kv # fval_strings (snd kv)) (source_filters src))"

subsection \<open>Link headers and chains of pages\<close>

text \<open>
  A \<open>Link\<close> header in the form the comment in \<open>get_issues\<close> shows: entries
  \<open><url>; rel="name"\<close> separated by a comma and a space. An entry is given as the pair
  of its URL and its relation name.
\<close>

definition link_entry :: "string \<times> string \<Rightarrow> string" where
  "link_entry e = ''<'' @ fst e @ ''>; rel='' @ [CHR 0x22] @ snd e @ [CHR 0x22]"

definition link_header :: "(string \<times> string) list \<Rightarrow> string" where
  "link_header es = join '', '' (map link_entry es)"

definition plain_text :: "string \<Rightarrow> bool" where
  "plain_text s = (CHR '','' \<notin> set s \<and> CHR '';'' \<notin> set s)"

definition plain_entries :: "(string \<times> string) list \<Rightarrow> bool" where
  "plain_entries es = (es \<noteq> [] \<and> (\<forall>e \<in> set es. plain_text (fst e) \<and> plain_text (snd e)))"

definition next_targets :: "(string \<times> string) list \<Rightarrow> string list" where
  "next_targets es = map fst (filter (\<lambda>e. snd e = ''next'') es)"

definition bare_url :: "string \<Rightarrow> bool" where
  "bare_url u = (u \<noteq> [] \<and> hd u \<notin> set ''<>'' \<and> last u \<notin> set ''<>'')"

text \<open>The key and the value that the parser of \<open>get_issues\<close> is to read from an entry.\<close>

definition entry_item :: "string \<times> string \<Rightarrow> string \<times> string" where
  "entry_item e = (''rel='' @ [CHR 0x22] @ snd e @ [CHR 0x22], ''<'' @ fst e @ ''>'')"

text \<open>
  \<open>serves lib w url pages w'\<close>: from the state \<open>w\<close> the request for \<open>url\<close> is answered by
  the first page, a JSON array of issues; the \<open>Link\<close> header of every page but the last
  has exactly one \<open>rel="next"\<close> entry, whose URL is answered by the page after it; the
  last page has no \<open>Link\<close> header, or one without a \<open>rel="next"\<close> entry; \<open>w'\<close> is the
  state after the last response. A page is the pair of its issues and the entries of its
  \<open>Link\<close> header, \<open>None\<close> for a response without the header.
\<close>

fun serves ::
  "'w lib \<Rightarrow> 'w \<Rightarrow> string \<Rightarrow> (json list \<times> (string \<times> string) list option) list \<Rightarrow> 'w \<Rightarrow> bool"
  where
  "serves lib w url [] w' = False"
| "serves lib w url ((issues, l) # pages) w' =
     (url \<noteq> [] \<and>
      (case urlopen lib w url of
         (Inl e, w1) \<Rightarrow> False
       | (Inr resp, w1) \<Rightarrow>
           body resp = Inr (JArr issues) \<and>
           link resp = map_option link_header l \<and>
           (case l of None \<Rightarrow> True | Some es \<Rightarrow> plain_entries es) \<and>
           (if pages = []
            then w1 = w' \<and> (case l of None \<Rightarrow> True | Some es \<Rightarrow> next_targets es = [])
            else (case l of
                    None \<Rightarrow> False
                  | Some es \<Rightarrow>
                      (case next_targets es of
                         [u] \<Rightarrow> bare_url u \<and> serves lib w1 u pages w'
                       | _ \<Rightarrow> False)))))"

subsection \<open>Values that evaluate\<close>

definition evaluates :: "error + 'a \<Rightarrow> bool" where
  "evaluates r = (case r of Inl e \<Rightarrow> False | Inr x \<Rightarrow> True)"

text \<open>The values of \<open>id\<close>, \<open>url\<close>, \<open>assigned\<close>, \<open>status\<close> and \<open>title\<close> in the dict literal of
  \<open>Github.get_all\<close> evaluate: the keys are there, and a true \<open>assignee\<close> has a \<open>login\<close>.\<close>

definition Github_basics :: "json \<Rightarrow> bool" where
  "Github_basics issue =
     (evaluates (py_getitem issue ''number'') \<and>
      evaluates (py_getitem issue ''html_url'') \<and>
      evaluates (ebind (py_getitem issue ''assignee'')
        (\<lambda>assignee. if truthy assignee then py_getitem assignee ''login'' else Inr assignee)) \<and>
      evaluates (py_getitem issue ''state'') \<and>
      evaluates (py_getitem issue ''title''))"

text \<open>The \<open>patch\<close> value of \<open>Github.get_all\<close>, and its \<open>feature\<close> value, evaluate.\<close>

definition Github_patch_value :: "json \<Rightarrow> error + json" where
  "Github_patch_value issue =
     ebind (py_getitem issue ''pull_request'') (\<lambda>p. py_getitem p ''html_url'')"

definition Github_feature_value :: "json \<Rightarrow> error + string" where
  "Github_feature_value issue =
     ebind (py_getitem issue ''labels'') (\<lambda>v.
     ebind (py_iter v) (\<lambda>labels. is_enhancement (map label_is_task labels)))"

text \<open>The values of the dict literal of \<open>Bugzilla.get_all\<close> other than \<open>patch\<close> evaluate.\<close>

definition Bugzilla_basics :: "(json \<Rightarrow> string) \<Rightarrow> json \<Rightarrow> bool" where
  "Bugzilla_basics repr issue =
     (evaluates (ebind (py_getitem issue ''id'') (format_field repr)) \<and>
      evaluates (ebind (py_getitem issue ''assigned_to'') (\<lambda>a. py_getitem a ''name'')) \<and>
      evaluates (ebind (py_getitem issue ''status'') in_closed_states) \<and>
      evaluates (py_getitem issue ''summary'') \<and>
      evaluates (py_getitem issue ''product'') \<and>
      evaluates (py_getitem issue ''component'') \<and>
      evaluates (ebind (py_getitem issue ''keywords'') (py_contains ''feature'')))"

subsection \<open>Raw values a record copies\<close>

definition is_scalar :: "error + json \<Rightarrow> bool" where
  "is_scalar r = (case r of Inr (JStr s) \<Rightarrow> True | Inr (JInt n) \<Rightarrow> True | _ \<Rightarrow> False)"

text \<open>The fields of a raw issue that \<open>get_all\<close> copies into the record are all strings
  or integers.\<close>

definition Github_copies_scalars :: "json \<Rightarrow> bool" where
  "Github_copies_scalars issue =
     ((\<forall>k \<in> set [''number'', ''html_url'', ''state'', ''title'']. is_scalar (py_getitem issue k)) \<and>
      (case py_getitem issue ''assignee'' of
         Inr assignee \<Rightarrow> truthy assignee \<longrightarrow> is_scalar (py_getitem assignee ''login'')
       | Inl e \<Rightarrow> True))"

definition Bugzilla_copies_scalars :: "json \<Rightarrow> bool" where
  "Bugzilla_copies_scalars issue =
     ((\<forall>k \<in> set [''id'', ''summary'', ''product'', ''component'']. is_scalar (py_getitem issue k)) \<and>
      is_scalar (ebind (py_getitem issue ''assigned_to'') (\<lambda>a. py_getitem a ''name'')))"

fun record_of :: "'w lib \<Rightarrow> source \<Rightarrow> json \<Rightarrow> error + normalized" where
  "record_of lib (Github user repo filters) issue = Github_record repo issue"
| "record_of lib (Bugzilla filters) issue = Bugzilla_record (py_repr lib) issue"

fun copies_scalars :: "source \<Rightarrow> json \<Rightarrow> bool" where
  "copies_scalars (Github user repo filters) issue = Github_copies_scalars issue"
| "copies_scalars (Bugzilla filters) issue = Bugzilla_copies_scalars issue"

subsection \<open>Rows\<close>

text \<open>\<open>is_row_of rec row\<close>: the row has ten cells, the cell of column \<open>j\<close> being the encoded
  value the record has for the \<open>j\<close>-th field name.\<close>

definition is_row_of :: "normalized \<Rightarrow> cell list \<Rightarrow> bool" where
  "is_row_of rec row =
     (length row = 10 \<and>
      (\<forall>j < 10. \<exists>v. map_of rec (fieldnames ! j) = Some v \<and> encode v = Inr (row ! j)))"

text \<open>The same items in another order.\<close>

definition reordered :: "normalized \<Rightarrow> normalized \<Rightarrow> bool" where
  "reordered rec rec' = (distinct (map fst rec') \<and> set rec' = set rec)"

subsection \<open>A mock network\<close>

text \<open>A mock \<open>urlopen\<close> that answers the requests with canned responses, in order;
  \<open>urljoin\<close> appends the relative path to the base.\<close>

fun mock_urlopen :: "response list \<Rightarrow> string \<Rightarrow> (error + response) \<times> response list" where
  "mock_urlopen [] url = (Inl URLError, [])"
| "mock_urlopen (r # rs) url = (Inr r, rs)"

definition mock_lib :: "response list lib" where
  "mock_lib =
     \<lparr>urlopen = mock_urlopen, urljoin = (\<lambda>base rel. base @ rel), py_repr = (\<lambda>v. ''?'')\<rparr>"

definition plain_issue :: "json" where
  "plain_issue =
     JObj [(''number'', JInt 7),
           (''html_url'', JStr ''https://github.com/acme/widgets/issues/7''),
           (''assignee'', JNull),
           (''state'', JStr ''open''),
           (''title'', JStr ''Crash''),
           (''pull_request'', JObj [(''html_url'', JNull)]),
           (''labels'', JArr [JObj [(''name'', JStr ''bug'')], JObj [(''name'', JStr ''task'')]])]"

definition plain_bug :: "json" where
  "plain_bug =
     JObj [(''id'', JInt 42),
           (''assigned_to'', JObj [(''name'', JStr ''dev@example.org'')]),
           (''status'', JStr ''RESOLVED''),
           (''summary'', JStr ''Boom''),
           (''product'', JStr ''Core''),
           (''component'', JStr ''DOM''),
           (''attachments'', JArr []),
           (''keywords'', JArr [JStr ''feature''])]"

definition plain_issue_record :: "normalized" where
  "plain_issue_record =
     [(''source'', PStr ''github''),
      (''id'', PJson (JInt 7)),
      (''url'', PJson (JStr ''https://github.com/acme/widgets/issues/7'')),
      (''assigned'', PStr ''nobody''),
      (''status'', PJson (JStr ''open'')),
      (''title'', PJson (JStr ''Crash'')),
      (''product'', PStr ''widgets''),
      (''module'', PStr ''widgets''),
      (''patch'', PStr ''n''),
      (''feature'', PStr ''y'')]"

definition plain_bug_record :: "normalized" where
  "plain_bug_record =
     [(''source'', PStr ''bugzilla''),
      (''id'', PJson (JInt 42)),
      (''url'', PStr ''https://bugzilla.mozilla.org/show_bug.cgi?id=42''),
      (''assigned'', PJson (JStr ''dev@example.org'')),
      (''status'', PStr ''closed''),
      (''title'', PJson (JStr ''Boom'')),
      (''product'', PJson (JStr ''Core'')),
      (''module'', PJson (JStr ''DOM'')),
      (''patch'', PStr ''y''),
      (''feature'', PStr ''y'')]"

text \<open>An issue that is a pull request and has no labels, an issue of today's API, which
  has no \<open>pull_request\<close> key unless it is a pull request, and a bug without attachments.\<close>

definition pull_request_issue :: "json" where
  "pull_request_issue =
     JObj [(''number'', JInt 8),
           (''html_url'', JStr ''https://github.com/acme/widgets/pull/8''),
           (''assignee'', JObj [(''login'', JStr ''alice'')]),
           (''state'', JStr ''closed''),
           (''title'', JStr ''Fix crash''),
           (''pull_request'', JObj [(''html_url'', JStr ''https://github.com/acme/widgets/pull/8'')]),
           (''labels'', JArr [])]"

definition pull_request_issue_record :: "normalized" where
  "pull_request_issue_record =
     [(''source'', PStr ''github''),
      (''id'', PJson (JInt 8)),
      (''url'', PJson (JStr ''https://github.com/acme/widgets/pull/8'')),
      (''assigned'', PJson (JStr ''alice'')),
      (''status'', PJson (JStr ''closed'')),
      (''title'', PJson (JStr ''Fix crash'')),
      (''product'', PStr ''widgets''),
      (''module'', PStr ''widgets''),
      (''patch'', PStr ''y''),
      (''feature'', PStr ''n'')]"

definition issue_without_pull_request :: "json" where
  "issue_without_pull_request =
     JObj [(''number'', JInt 9),
           (''html_url'', JStr ''https://github.com/acme/widgets/issues/9''),
           (''assignee'', JNull),
           (''state'', JStr ''open''),
           (''title'', JStr ''Typo''),
           (''labels'', JArr [])]"

definition bare_bug :: "json" where
  "bare_bug =
     JObj [(''id'', JInt 43),
           (''assigned_to'', JObj [(''name'', JStr ''dev@example.org'')]),
           (''status'', JStr ''NEW''),
           (''summary'', JStr ''Leak''),
           (''product'', JStr ''Core''),
           (''component'', JStr ''DOM''),
           (''keywords'', JArr [])]"

definition bare_bug_record :: "normalized" where
  "bare_bug_record =
     [(''source'', PStr ''bugzilla''),
      (''id'', PJson (JInt 43)),
      (''url'', PStr ''https://bugzilla.mozilla.org/show_bug.cgi?id=43''),
      (''assigned'', PJson (JStr ''dev@example.org'')),
      (''status'', PStr ''open''),
      (''title'', PJson (JStr ''Leak'')),
      (''product'', PJson (JStr ''Core'')),
      (''module'', PJson (JStr ''DOM'')),
      (''patch'', PStr ''n''),
      (''feature'', PStr ''n'')]"

section \<open>Properties of the normalizers\<close>

lemma ebind_Inr_iff: "ebind m f = Inr y \<longleftrightarrow> (\<exists>x. m = Inr x \<and> f x = Inr y)"
  by (cases m) (simp_all add: ebind_def)

lemma ebind_Inl [simp]: "ebind (Inl e) f = Inl e"
  by (simp add: ebind_def)

lemma ebind_Inr [simp]: "ebind (Inr x) f = f x"
  by (simp add: ebind_def)

lemma ebind_Inl_iff:
  "ebind m f = Inl e \<longleftrightarrow> m = Inl e \<or> (\<exists>x. m = Inr x \<and> f x = Inl e)"
  by (cases m) simp_all

lemma evaluates_iff: "evaluates r \<longleftrightarrow> (\<exists>x. r = Inr x)"
  by (cases r) (simp_all add: evaluates_def)

lemma py_getitem_Inr: "py_getitem j k = Inr v \<Longrightarrow> \<exists>kvs. j = JObj kvs \<and> map_of kvs k = Some v"
  by (cases j) (auto split: option.splits)

lemma py_getitem_error: "py_getitem j k = Inl e \<Longrightarrow> e = KeyError \<or> e = TypeError"
  by (cases j) (auto split: option.splits)

lemma py_iter_error: "py_iter j = Inl e \<Longrightarrow> e = TypeError"
  by (cases j) auto

lemma is_enhancement_y:
  "is_enhancement bs = Inr f \<Longrightarrow> f = (if Inr True \<in> set bs then ''y'' else ''n'')"
  by (induction bs rule: is_enhancement.induct) auto

lemma is_enhancement_error: "is_enhancement bs = Inl e \<Longrightarrow> Inl e \<in> set bs"
  by (induction bs rule: is_enhancement.induct) auto

lemma is_enhancement_total:
  "\<forall>b \<in> set bs. evaluates b \<Longrightarrow>
   is_enhancement bs = Inr (if Inr True \<in> set bs then ''y'' else ''n'')"
  by (induction bs rule: is_enhancement.induct) (auto simp: evaluates_def)

lemma label_is_task_True:
  "label_is_task l = Inr True \<longleftrightarrow> py_getitem l ''name'' = Inr (JStr ''task'')"
  by (cases "py_getitem l ''name''") (auto simp: label_is_task_def)

lemma label_is_task_evaluates: "evaluates (label_is_task l) \<longleftrightarrow> evaluates (py_getitem l ''name'')"
  by (cases "py_getitem l ''name''") (simp_all add: label_is_task_def evaluates_def)

lemma label_is_task_error: "label_is_task l = Inl e \<Longrightarrow> e = KeyError \<or> e = TypeError"
  by (cases "py_getitem l ''name''") (auto simp: label_is_task_def dest: py_getitem_error)

lemma task_label_iff:
  "Inr True \<in> set (map label_is_task labels) \<longleftrightarrow>
   (\<exists>l \<in> set labels. py_getitem l ''name'' = Inr (JStr ''task''))"
  by (metis (no_types, lifting) image_iff list.set_map label_is_task_True)

text \<open>The feature value of well-formed labels: whether one of them is named \<open>task\<close>.\<close>

lemma feature_of_labels:
  assumes "\<forall>l \<in> set labels. evaluates (py_getitem l ''name'')"
  shows "is_enhancement (map label_is_task labels) =
           Inr (if \<exists>l \<in> set labels. py_getitem l ''name'' = Inr (JStr ''task'')
                then ''y'' else ''n'')"
proof -
  from assms have "\<forall>b \<in> set (map label_is_task labels). evaluates b"
    by (simp add: label_is_task_evaluates)
  from is_enhancement_total [OF this] show ?thesis
    by (simp only: task_label_iff)
qed

text \<open>A record is produced only if every value of the dict literal evaluates.\<close>

lemma Github_record_Inr:
  assumes "Github_record repo issue = Inr rec"
  shows "\<exists>number html_url assignee assigned state title pull_request pr_url labels_value
           labels feature.
    py_getitem issue ''number'' = Inr number
    \<and> py_getitem issue ''html_url'' = Inr html_url
    \<and> py_getitem issue ''assignee'' = Inr assignee
    \<and> (if truthy assignee
            then ebind (py_getitem assignee ''login'') (\<lambda>login. Inr (PJson login))
            else Inr (PStr ''nobody'')) = Inr assigned
    \<and> py_getitem issue ''state'' = Inr state
    \<and> py_getitem issue ''title'' = Inr title
    \<and> py_getitem issue ''pull_request'' = Inr pull_request
    \<and> py_getitem pull_request ''html_url'' = Inr pr_url
    \<and> py_getitem issue ''labels'' = Inr labels_value
    \<and> py_iter labels_value = Inr labels
    \<and> is_enhancement (map label_is_task labels) = Inr feature
    \<and> rec = [(''source'', PStr ''github''),
          (''id'', PJson number),
          (''url'', PJson html_url),
          (''assigned'', assigned),
          (''status'', PJson state),
          (''title'', PJson title),
          (''product'', arg_cell repo),
          (''module'', arg_cell repo),
          (''patch'', yn (truthy pr_url)),
          (''feature'', PStr feature)]"
  using assms unfolding Github_record_def ebind_Inr_iff by blast

text \<open>And it is produced if they all do.\<close>

lemma Github_record_produced:
  assumes "Github_basics issue"
    and "Github_patch_value issue = Inr pr_url"
    and "Github_feature_value issue = Inr feature"
  shows "\<exists>rec. Github_record repo issue = Inr rec \<and>
           map_of rec ''patch'' = Some (PStr (if truthy pr_url then ''y'' else ''n'')) \<and>
           map_of rec ''feature'' = Some (PStr feature)"
proof -
  from assms(1) obtain number html_url assignee login state title
    where "py_getitem issue ''number'' = Inr number"
      and "py_getitem issue ''html_url'' = Inr html_url"
      and "py_getitem issue ''assignee'' = Inr assignee"
      and "(if truthy assignee then py_getitem assignee ''login'' else Inr assignee) = Inr login"
      and "py_getitem issue ''state'' = Inr state"
      and "py_getitem issue ''title'' = Inr title"
    unfolding Github_basics_def evaluates_iff ebind_Inr_iff by blast
  moreover from assms(2) obtain pull_request
    where "py_getitem issue ''pull_request'' = Inr pull_request"
      and "py_getitem pull_request ''html_url'' = Inr pr_url"
    unfolding Github_patch_value_def ebind_Inr_iff by blast
  moreover from assms(3) obtain labels_value labels
    where "py_getitem issue ''labels'' = Inr labels_value"
      and "py_iter labels_value = Inr labels"
      and "is_enhancement (map label_is_task labels) = Inr feature"
    unfolding Github_feature_value_def ebind_Inr_iff by blast
  ultimately show ?thesis
    by (simp add: Github_record_def yn_def split: if_splits)
qed

text \<open>The first value of the dict literal that raises decides the exception.\<close>

lemma Github_record_patch_error:
  assumes "Github_basics issue" and "Github_patch_value issue = Inl e"
  shows "Github_record repo issue = Inl e"
proof -
  from assms(1) obtain number html_url assignee login state title
    where "py_getitem issue ''number'' = Inr number"
      and "py_getitem issue ''html_url'' = Inr html_url"
      and "py_getitem issue ''assignee'' = Inr assignee"
      and "(if truthy assignee then py_getitem assignee ''login'' else Inr assignee) = Inr login"
      and "py_getitem issue ''state'' = Inr state"
      and "py_getitem issue ''title'' = Inr title"
    unfolding Github_basics_def evaluates_iff ebind_Inr_iff by blast
  moreover from assms(2)
  have "py_getitem issue ''pull_request'' = Inl e \<or>
        (\<exists>p. py_getitem issue ''pull_request'' = Inr p \<and> py_getitem p ''html_url'' = Inl e)"
    unfolding Github_patch_value_def ebind_Inl_iff .
  ultimately show ?thesis
    by (auto simp: Github_record_def split: if_splits)
qed

lemma Github_record_error:
  assumes "Github_record repo issue = Inl e"
  shows "e = KeyError \<or> e = TypeError"
proof -
  have g: "py_getitem j k = Inl e \<Longrightarrow> e = KeyError \<or> e = TypeError" for j k
    by (rule py_getitem_error)
  have i: "py_iter j = Inl e \<Longrightarrow> e = KeyError \<or> e = TypeError" for j
    by (auto dest: py_iter_error)
  have f: "is_enhancement (map label_is_task ls) = Inl e \<Longrightarrow> e = KeyError \<or> e = TypeError"
    for ls
    by (auto dest!: is_enhancement_error label_is_task_error [OF sym])
  from assms show ?thesis
    unfolding Github_record_def ebind_Inl_iff
    by (elim disjE exE conjE) (auto simp: ebind_Inl_iff dest: g i f split: if_splits)
qed

lemma Bugzilla_record_Inr:
  assumes "Bugzilla_record repr issue = Inr rec"
  shows "\<exists>bug_id id_text assigned_to name status closed summary product component
           has_attachments keywords is_feature.
    py_getitem issue ''id'' = Inr bug_id
    \<and> format_field repr bug_id = Inr id_text
    \<and> py_getitem issue ''assigned_to'' = Inr assigned_to
    \<and> py_getitem assigned_to ''name'' = Inr name
    \<and> py_getitem issue ''status'' = Inr status
    \<and> in_closed_states status = Inr closed
    \<and> py_getitem issue ''summary'' = Inr summary
    \<and> py_getitem issue ''product'' = Inr product
    \<and> py_getitem issue ''component'' = Inr component
    \<and> py_contains ''attachments'' issue = Inr has_attachments
    \<and> py_getitem issue ''keywords'' = Inr keywords
    \<and> py_contains ''feature'' keywords = Inr is_feature
    \<and> rec = [(''source'', PStr ''bugzilla''),
          (''id'', PJson bug_id),
          (''url'', PStr (BUG_URL_FORMAT @ id_text)),
          (''assigned'', PJson name),
          (''status'', PStr (if closed then ''closed'' else ''open'')),
          (''title'', PJson summary),
          (''product'', PJson product),
          (''module'', PJson component),
          (''patch'', yn has_attachments),
          (''feature'', yn is_feature)]"
  using assms unfolding Bugzilla_record_def ebind_Inr_iff by blast

lemma Bugzilla_record_produced:
  assumes "Bugzilla_basics repr bug"
  shows "\<exists>kvs rec. bug = JObj kvs \<and> Bugzilla_record repr bug = Inr rec \<and>
           map_of rec ''patch'' =
             Some (PStr (if ''attachments'' \<in> set (map fst kvs) then ''y'' else ''n''))"
proof -
  from assms obtain bug_id id_text assigned_to name status closed summary product component
    kws is_feature
    where i: "py_getitem bug ''id'' = Inr bug_id"
      and "format_field repr bug_id = Inr id_text"
      and "py_getitem bug ''assigned_to'' = Inr assigned_to"
      and "py_getitem assigned_to ''name'' = Inr name"
      and "py_getitem bug ''status'' = Inr status"
      and "in_closed_states status = Inr closed"
      and "py_getitem bug ''summary'' = Inr summary"
      and "py_getitem bug ''product'' = Inr product"
      and "py_getitem bug ''component'' = Inr component"
      and "py_getitem bug ''keywords'' = Inr kws"
      and "py_contains ''feature'' kws = Inr is_feature"
    unfolding Bugzilla_basics_def evaluates_iff ebind_Inr_iff by blast
  moreover from py_getitem_Inr [OF i] obtain kvs where "bug = JObj kvs" by blast
  ultimately show ?thesis
    by (simp add: Bugzilla_record_def yn_def)
qed

lemma Github_record_plain_issue:
  "Github_record (FStr ''widgets'') plain_issue = Inr plain_issue_record"
  by (simp add: Github_record_def plain_issue_def plain_issue_record_def label_is_task_def
      yn_def)

lemma Github_record_pull_request_issue:
  "Github_record (FStr ''widgets'') pull_request_issue = Inr pull_request_issue_record"
  by (simp add: Github_record_def pull_request_issue_def pull_request_issue_record_def yn_def)

lemma Bugzilla_record_plain_bug: "Bugzilla_record repr plain_bug = Inr plain_bug_record"
  by (simp add: Bugzilla_record_def plain_bug_def plain_bug_record_def yn_def
      CLOSED_STATES_def BUG_URL_FORMAT_def show_int_def show_nat.simps)

lemma Bugzilla_record_bare_bug: "Bugzilla_record repr bare_bug = Inr bare_bug_record"
  by (simp add: Bugzilla_record_def bare_bug_def bare_bug_record_def yn_def
      CLOSED_STATES_def BUG_URL_FORMAT_def show_int_def show_nat.simps)

lemma Github_basics_examples:
  "Github_basics plain_issue" "Github_basics pull_request_issue"
  "Github_basics issue_without_pull_request"
  by (simp_all add: Github_basics_def evaluates_def plain_issue_def pull_request_issue_def
      issue_without_pull_request_def)

lemma Github_patch_value_examples:
  "Github_patch_value plain_issue = Inr JNull"
  "Github_patch_value pull_request_issue = Inr (JStr ''https://github.com/acme/widgets/pull/8'')"
  "Github_patch_value issue_without_pull_request = Inl KeyError"
  by (simp_all add: Github_patch_value_def plain_issue_def pull_request_issue_def
      issue_without_pull_request_def)

lemma Github_feature_value_examples:
  "Github_feature_value plain_issue = Inr ''y''"
  "Github_feature_value pull_request_issue = Inr ''n''"
  by (simp_all add: Github_feature_value_def plain_issue_def pull_request_issue_def
      label_is_task_def)

lemma Bugzilla_basics_examples:
  "Bugzilla_basics repr plain_bug" "Bugzilla_basics repr bare_bug"
  by (simp_all add: Bugzilla_basics_def evaluates_def plain_bug_def bare_bug_def
      CLOSED_STATES_def)

text \<open>
  Claim C6. For every raw github issue, the \<open>feature\<close> field of the record that \<open>get_all\<close>
  produces is \<open>"y"\<close> if and only if some label of the issue's \<open>labels\<close> has the name
  \<open>"task"\<close>, and \<open>"n"\<close> otherwise; it is \<open>"n"\<close> when there are no labels. The record is
  produced whenever the other values of the dict literal evaluate and every label has a
  \<open>name\<close>.
\<close>

theorem feature_is_task_label:
  "(Github_record repo issue = Inr rec \<longrightarrow>
      (\<exists>labels. ebind (py_getitem issue ''labels'') py_iter = Inr labels \<and>
         map_of rec ''feature'' =
           Some (PStr (if \<exists>l \<in> set labels. py_getitem l ''name'' = Inr (JStr ''task'')
                       then ''y'' else ''n'')) \<and>
         (labels = [] \<longrightarrow> map_of rec ''feature'' = Some (PStr ''n'')))) \<and>
   (Github_basics issue \<and> evaluates (Github_patch_value issue) \<and>
    py_getitem issue ''labels'' = Inr (JArr labels') \<and>
    (\<forall>l \<in> set labels'. evaluates (py_getitem l ''name'')) \<longrightarrow>
      (\<exists>rec'. Github_record repo issue = Inr rec' \<and>
         map_of rec' ''feature'' =
           Some (PStr (if \<exists>l \<in> set labels'. py_getitem l ''name'' = Inr (JStr ''task'')
                       then ''y'' else ''n''))))"
proof (intro conjI impI)
  assume r: "Github_record repo issue = Inr rec"
  from Github_record_Inr [OF r] obtain labels_value labels feature
    where lv: "py_getitem issue ''labels'' = Inr labels_value"
      and ls: "py_iter labels_value = Inr labels"
      and en: "is_enhancement (map label_is_task labels) = Inr feature"
      and f: "map_of rec ''feature'' = Some (PStr feature)"
    by auto
  from is_enhancement_y [OF en]
  have "feature = (if \<exists>l \<in> set labels. py_getitem l ''name'' = Inr (JStr ''task'')
                   then ''y'' else ''n'')"
    by (simp only: task_label_iff)
  with lv ls f
  show "\<exists>labels. ebind (py_getitem issue ''labels'') py_iter = Inr labels \<and>
         map_of rec ''feature'' =
           Some (PStr (if \<exists>l \<in> set labels. py_getitem l ''name'' = Inr (JStr ''task'')
                       then ''y'' else ''n'')) \<and>
         (labels = [] \<longrightarrow> map_of rec ''feature'' = Some (PStr ''n''))"
    by auto
next
  assume a: "Github_basics issue \<and> evaluates (Github_patch_value issue) \<and>
    py_getitem issue ''labels'' = Inr (JArr labels') \<and>
    (\<forall>l \<in> set labels'. evaluates (py_getitem l ''name''))"
  then obtain pr_url where p: "Github_patch_value issue = Inr pr_url"
    by (auto simp: evaluates_iff)
  from a have "Github_feature_value issue =
      Inr (if \<exists>l \<in> set labels'. py_getitem l ''name'' = Inr (JStr ''task'')
           then ''y'' else ''n'')"
    by (simp add: Github_feature_value_def feature_of_labels)
  from Github_record_produced [OF _ p this, of repo] a
  show "\<exists>rec'. Github_record repo issue = Inr rec' \<and>
         map_of rec' ''feature'' =
           Some (PStr (if \<exists>l \<in> set labels'. py_getitem l ''name'' = Inr (JStr ''task'')
                       then ''y'' else ''n''))"
    by blast
qed

theorem feature_is_task_label_witness:
  "(\<exists>rec. Github_record (FStr ''widgets'') pull_request_issue = Inr rec \<and>
      map_of rec ''feature'' = Some (PStr ''n'')) \<and>
   (\<exists>rec. Github_record (FStr ''widgets'') plain_issue = Inr rec \<and>
      map_of rec ''feature'' = Some (PStr ''y''))"
proof
  have "evaluates (Github_patch_value pull_request_issue)"
    by (simp add: Github_patch_value_examples evaluates_def)
  moreover have "py_getitem pull_request_issue ''labels'' = Inr (JArr [])"
    by (simp add: pull_request_issue_def)
  ultimately show "\<exists>rec. Github_record (FStr ''widgets'') pull_request_issue = Inr rec \<and>
      map_of rec ''feature'' = Some (PStr ''n'')"
    using feature_is_task_label [of "FStr ''widgets''" pull_request_issue undefined "[]"]
      Github_basics_examples(2)
    by simp
next
  let ?labels = "[JObj [(''name'', JStr ''bug'')], JObj [(''name'', JStr ''task'')]]"
  have "evaluates (Github_patch_value plain_issue)"
    by (simp add: Github_patch_value_examples evaluates_def)
  moreover have "py_getitem plain_issue ''labels'' = Inr (JArr ?labels)"
    by (simp add: plain_issue_def)
  moreover have "\<forall>l \<in> set ?labels. evaluates (py_getitem l ''name'')"
    by (simp add: evaluates_def)
  ultimately show "\<exists>rec. Github_record (FStr ''widgets'') plain_issue = Inr rec \<and>
      map_of rec ''feature'' = Some (PStr ''y'')"
    using feature_is_task_label [of "FStr ''widgets''" plain_issue undefined ?labels]
      Github_basics_examples(1)
    by simp
qed

text \<open>
  Claim C7, as amended. For every raw github issue, the \<open>patch\<close> field of the record that
  \<open>get_all\<close> produces is \<open>"y"\<close> if \<open>issue["pull_request"]["html_url"]\<close> is a true value (a
  non-empty URL) and \<open>"n"\<close> if it is a false one (\<open>null\<close>, the empty string); the record is
  produced whenever that value and the other values of the dict literal evaluate. An issue
  for which \<open>issue["pull_request"]["html_url"]\<close> does not evaluate, such as one with no
  \<open>pull_request\<close> key, is not normalized: \<open>get_all\<close> raises \<open>KeyError\<close> or \<open>TypeError\<close>, the
  exception of that lookup when the values before it evaluate.
\<close>

theorem patch_is_pull_request_url:
  "(Github_record repo issue = Inr rec \<longrightarrow>
      (\<exists>pull_request pr_url.
         py_getitem issue ''pull_request'' = Inr pull_request \<and>
         py_getitem pull_request ''html_url'' = Inr pr_url \<and>
         map_of rec ''patch'' = Some (PStr (if truthy pr_url then ''y'' else ''n'')))) \<and>
   (Github_basics issue \<and> Github_patch_value issue = Inr url \<and>
    evaluates (Github_feature_value issue) \<longrightarrow>
      (\<exists>rec'. Github_record repo issue = Inr rec' \<and>
         map_of rec' ''patch'' = Some (PStr (if truthy url then ''y'' else ''n'')))) \<and>
   (Github_patch_value issue = Inl e \<longrightarrow>
      (\<exists>e'. Github_record repo issue = Inl e' \<and> (e' = KeyError \<or> e' = TypeError))) \<and>
   (Github_basics issue \<and> Github_patch_value issue = Inl e \<longrightarrow>
      Github_record repo issue = Inl e \<and> (e = KeyError \<or> e = TypeError))"
proof (intro conjI impI)
  assume "Github_record repo issue = Inr rec"
  from Github_record_Inr [OF this]
  show "\<exists>pull_request pr_url.
         py_getitem issue ''pull_request'' = Inr pull_request \<and>
         py_getitem pull_request ''html_url'' = Inr pr_url \<and>
         map_of rec ''patch'' = Some (PStr (if truthy pr_url then ''y'' else ''n''))"
    by (auto simp: yn_def)
next
  assume a: "Github_basics issue \<and> Github_patch_value issue = Inr url \<and>
    evaluates (Github_feature_value issue)"
  then obtain feature where "Github_feature_value issue = Inr feature"
    by (auto simp: evaluates_iff)
  from Github_record_produced [OF _ _ this, of url repo] a
  show "\<exists>rec'. Github_record repo issue = Inr rec' \<and>
         map_of rec' ''patch'' = Some (PStr (if truthy url then ''y'' else ''n''))"
    by blast
next
  assume e: "Github_patch_value issue = Inl e"
  show "\<exists>e'. Github_record repo issue = Inl e' \<and> (e' = KeyError \<or> e' = TypeError)"
  proof (cases "Github_record repo issue")
    case (Inl e')
    with Github_record_error [OF Inl] show ?thesis by blast
  next
    case (Inr rec)
    from Github_record_Inr [OF this] e show ?thesis
      by (auto simp: Github_patch_value_def)
  qed
next
  assume a: "Github_basics issue \<and> Github_patch_value issue = Inl e"
  then have r: "Github_record repo issue = Inl e"
    by (intro Github_record_patch_error) simp_all
  then show "Github_record repo issue = Inl e" .
  from Github_record_error [OF r] show "e = KeyError \<or> e = TypeError" .
qed

theorem patch_is_pull_request_url_witness:
  "(\<exists>rec. Github_record (FStr ''widgets'') pull_request_issue = Inr rec \<and>
      map_of rec ''patch'' = Some (PStr ''y'')) \<and>
   (\<exists>rec. Github_record (FStr ''widgets'') plain_issue = Inr rec \<and>
      map_of rec ''patch'' = Some (PStr ''n'')) \<and>
   Github_record (FStr ''widgets'') issue_without_pull_request = Inl KeyError"
proof (intro conjI)
  have "evaluates (Github_feature_value pull_request_issue)"
    by (simp add: Github_feature_value_examples evaluates_def)
  with Github_basics_examples(2) Github_patch_value_examples(2)
    patch_is_pull_request_url [of "FStr ''widgets''" pull_request_issue undefined
      "JStr ''https://github.com/acme/widgets/pull/8''" undefined]
  show "\<exists>rec. Github_record (FStr ''widgets'') pull_request_issue = Inr rec \<and>
      map_of rec ''patch'' = Some (PStr ''y'')"
    by simp
next
  have "evaluates (Github_feature_value plain_issue)"
    by (simp add: Github_feature_value_examples evaluates_def)
  with Github_basics_examples(1) Github_patch_value_examples(1)
    patch_is_pull_request_url [of "FStr ''widgets''" plain_issue undefined JNull undefined]
  show "\<exists>rec. Github_record (FStr ''widgets'') plain_issue = Inr rec \<and>
      map_of rec ''patch'' = Some (PStr ''n'')"
    by simp
next
  from Github_basics_examples(3) Github_patch_value_examples(3)
    patch_is_pull_request_url [of "FStr ''widgets''" issue_without_pull_request undefined
      undefined KeyError]
  show "Github_record (FStr ''widgets'') issue_without_pull_request = Inl KeyError"
    by simp
qed

text \<open>The claim as written fails for an issue that has no \<open>pull_request\<close> key: no record
  with \<open>patch = "n"\<close> is produced, the lookup raises \<open>KeyError\<close>.\<close>

theorem patch_without_pull_request_counterexample:
  "Github_record (FStr ''widgets'')
     (JObj [(''number'', JInt 7),
            (''html_url'', JStr ''https://github.com/acme/widgets/issues/7''),
            (''assignee'', JNull),
            (''state'', JStr ''open''),
            (''title'', JStr ''Crash''),
            (''labels'', JArr [])]) = Inl KeyError"
  by (simp add: Github_record_def)

text \<open>
  Claim C9. For every raw bug, the \<open>patch\<close> field of the record that \<open>get_all\<close> produces is
  \<open>"y"\<close> if and only if the bug object has an \<open>attachments\<close> key, whatever its value, and
  \<open>"n"\<close> when the key is absent. The record is produced whenever the other values of the
  dict literal evaluate.
\<close>

theorem patch_is_attachments_key:
  "(Bugzilla_record repr bug = Inr rec \<longrightarrow>
      (\<exists>kvs. bug = JObj kvs \<and>
         map_of rec ''patch'' =
           Some (PStr (if ''attachments'' \<in> set (map fst kvs) then ''y'' else ''n'')))) \<and>
   (Bugzilla_basics repr bug \<longrightarrow>
      (\<exists>kvs rec'. bug = JObj kvs \<and> Bugzilla_record repr bug = Inr rec' \<and>
         map_of rec' ''patch'' =
           Some (PStr (if ''attachments'' \<in> set (map fst kvs) then ''y'' else ''n''))))"
proof (intro conjI impI)
  assume r: "Bugzilla_record repr bug = Inr rec"
  from Bugzilla_record_Inr [OF r] obtain bug_id has_attachments
    where i: "py_getitem bug ''id'' = Inr bug_id"
      and a: "py_contains ''attachments'' bug = Inr has_attachments"
      and p: "map_of rec ''patch'' = Some (yn has_attachments)"
    by auto
  from py_getitem_Inr [OF i] obtain kvs where "bug = JObj kvs" by blast
  with a p show "\<exists>kvs. bug = JObj kvs \<and>
         map_of rec ''patch'' =
           Some (PStr (if ''attachments'' \<in> set (map fst kvs) then ''y'' else ''n''))"
    by (auto simp: yn_def)
next
  assume "Bugzilla_basics repr bug"
  then show "\<exists>kvs rec'. bug = JObj kvs \<and> Bugzilla_record repr bug = Inr rec' \<and>
         map_of rec' ''patch'' =
           Some (PStr (if ''attachments'' \<in> set (map fst kvs) then ''y'' else ''n''))"
    by (rule Bugzilla_record_produced)
qed

theorem patch_is_attachments_key_witness:
  "(\<exists>rec. Bugzilla_record (\<lambda>v. ''?'') bare_bug = Inr rec \<and>
      map_of rec ''patch'' = Some (PStr ''n'')) \<and>
   (\<exists>rec. Bugzilla_record (\<lambda>v. ''?'') plain_bug = Inr rec \<and>
      py_getitem plain_bug ''attachments'' = Inr (JArr []) \<and>
      map_of rec ''patch'' = Some (PStr ''y''))"
proof
  from Bugzilla_basics_examples(2) [of "\<lambda>v. ''?''"]
    patch_is_attachments_key [of "\<lambda>v. ''?''" bare_bug undefined]
  show "\<exists>rec. Bugzilla_record (\<lambda>v. ''?'') bare_bug = Inr rec \<and>
      map_of rec ''patch'' = Some (PStr ''n'')"
    by (auto simp: bare_bug_def)
next
  from Bugzilla_basics_examples(1) [of "\<lambda>v. ''?''"]
    patch_is_attachments_key [of "\<lambda>v. ''?''" plain_bug undefined]
  show "\<exists>rec. Bugzilla_record (\<lambda>v. ''?'') plain_bug = Inr rec \<and>
      py_getitem plain_bug ''attachments'' = Inr (JArr []) \<and>
      map_of rec ''patch'' = Some (PStr ''y'')"
    by (auto simp: plain_bug_def)
qed

section \<open>Properties of source definitions\<close>

lemma split_on_not_Nil [simp]: "split_on c s \<noteq> []"
  by (induction s) (auto split: list.splits)

lemma length_split_on: "length (split_on c s) = Suc (count_list s c)"
  by (induction s) (auto split: list.splits)

lemma split_on_absent: "c \<notin> set s \<Longrightarrow> split_on c s = [s]"
  by (induction s) auto

lemma split_on_once:
  "count_list s c = 1 \<Longrightarrow>
   split_on c s = [takeWhile (\<lambda>x. x \<noteq> c) s, tl (dropWhile (\<lambda>x. x \<noteq> c) s)]"
proof (induction s)
  case Nil
  then show ?case by simp
next
  case (Cons x s)
  show ?case
  proof (cases "x = c")
    case True
    with Cons.prems have "count_list s c = 0" by simp
    then have "c \<notin> set s" by (simp add: count_list_0_iff)
    with True show ?thesis by (simp add: split_on_absent)
  next
    case False
    with Cons show ?thesis by simp
  qed
qed

lemma split_on_parts: "p \<in> set (split_on c s) \<Longrightarrow> c \<notin> set p"
  by (induction s arbitrary: p) (auto split: if_splits list.splits)

lemma count_list_pos: "0 < count_list s c \<longleftrightarrow> c \<in> set s"
  using count_list_0_iff [of s c] by auto

lemma parse_bits_error: "parse_bits bits args kwargs = Inl e \<Longrightarrow> e = ValueError"
  by (induction bits args kwargs rule: parse_bits.induct)
     (auto split: if_splits list.splits)

lemma parse_bits_many:
  "\<exists>b \<in> set bits. 1 < count_list b CHR ''='' \<Longrightarrow> parse_bits bits args kwargs = Inl ValueError"
proof (induction bits arbitrary: args kwargs)
  case Nil
  then show ?case by simp
next
  case (Cons b bits)
  show ?case
  proof (cases "1 < count_list b CHR ''=''")
    case True
    then have "CHR ''='' \<in> set b" using count_list_pos [of b "CHR ''=''"] by simp
    moreover from True have "2 < length (split_on CHR ''='' b)"
      by (simp add: length_split_on)
    then have "\<not> (\<exists>key val. split_on CHR ''='' b = [key, val])" by auto
    ultimately show ?thesis by (auto split: list.splits)
  next
    case False
    with Cons.prems have "\<exists>b \<in> set bits. 1 < count_list b CHR ''=''" by auto
    from Cons.IH [OF this] show ?thesis by (auto split: list.splits)
  qed
qed

lemma parse_bits_valid:
  "\<forall>b \<in> set bits. count_list b CHR ''='' \<le> 1 \<Longrightarrow>
   parse_bits bits args kwargs =
     Inr (args @ positional bits,
          fold (\<lambda>kv. append_kwarg (fst kv) (snd kv)) (assignments bits) kwargs)"
proof (induction bits arbitrary: args kwargs)
  case Nil
  then show ?case by (simp add: positional_def assignments_def)
next
  case (Cons b bits)
  then have IH: "\<And>args kwargs. parse_bits bits args kwargs =
     Inr (args @ positional bits,
          fold (\<lambda>kv. append_kwarg (fst kv) (snd kv)) (assignments bits) kwargs)"
    by simp
  show ?case
  proof (cases "CHR ''='' \<in> set b")
    case True
    with Cons.prems have "count_list b CHR ''='' = 1"
      using count_list_pos [of b "CHR ''=''"] by force
    from split_on_once [OF this] True show ?thesis
      by (simp add: IH positional_def assignments_def)
  next
    case False
    then show ?thesis by (simp add: IH positional_def assignments_def)
  qed
qed

lemma map_of_append_kwarg:
  "map_of (append_kwarg k v kwargs) key =
     (if key = k then Some ((case map_of kwargs k of None \<Rightarrow> [] | Some vs \<Rightarrow> vs) @ [v])
      else map_of kwargs key)"
  by (induction kwargs) auto

lemma keys_append_kwarg: "fst ` set (append_kwarg k v kwargs) = insert k (fst ` set kwargs)"
  by (induction k v kwargs rule: append_kwarg.induct) (simp_all add: insert_commute)

lemma distinct_append_kwarg:
  "distinct (map fst kwargs) \<Longrightarrow> distinct (map fst (append_kwarg k v kwargs))"
  by (induction k v kwargs rule: append_kwarg.induct) (auto simp: keys_append_kwarg)

lemma distinct_fold_append_kwarg:
  "distinct (map fst kwargs) \<Longrightarrow>
   distinct (map fst (fold (\<lambda>kv. append_kwarg (fst kv) (snd kv)) as kwargs))"
  by (induction as arbitrary: kwargs) (simp_all add: distinct_append_kwarg)

lemma map_fst_FList: "map fst (map (\<lambda>(k, vs). (k, FList vs)) kwargs) = map fst kwargs"
  by (induction kwargs) auto

lemma map_of_fold_append_kwarg:
  "map_of (fold (\<lambda>kv. append_kwarg (fst kv) (snd kv)) as kwargs) key =
     (case map_of kwargs key of
        None \<Rightarrow> (if map snd (filter (\<lambda>kv. fst kv = key) as) = [] then None
                 else Some (map snd (filter (\<lambda>kv. fst kv = key) as)))
      | Some vs \<Rightarrow> Some (vs @ map snd (filter (\<lambda>kv. fst kv = key) as)))"
  by (induction as arbitrary: kwargs) (auto simp: map_of_append_kwarg split: option.splits)

lemma keys_fold_append_kwarg:
  "fst ` set (fold (\<lambda>kv. append_kwarg (fst kv) (snd kv)) as kwargs) =
     fst ` set kwargs \<union> fst ` set as"
  by (induction as arbitrary: kwargs) (simp_all add: keys_append_kwarg)

lemma map_of_FList:
  "map_of (map (\<lambda>(k, vs). (k, FList vs)) kwargs) key = map_option FList (map_of kwargs key)"
  by (induction kwargs) auto

lemma keys_FList: "fst ` set (map (\<lambda>(k, vs). (k, FList vs)) kwargs) = fst ` set kwargs"
  by (induction kwargs) auto

lemma split_example:
  "split_on CHR '':'' ''github:acme:widgets:state=open:state=closed'' =
     [''github'', ''acme'', ''widgets'', ''state=open'', ''state=closed'']"
  by simp

lemma grammatical_example: "grammatical ''github:acme:widgets:state=open:state=closed''"
  by code_simp

lemma not_shadowing_example:
  "\<not> shadows_parameter ''github:acme:widgets:state=open:state=closed''"
  by code_simp

lemma parse_example: "parse_source ''github:acme:widgets:state=open:state=closed'' =
     Inr (Github (FStr ''acme'') (FStr ''widgets'') [(''state'', FList [''open'', ''closed''])])"
  by (simp add: parse_source_def SOURCE_TYPES_def Github_init_def)

text \<open>
  Claim C3, as amended. For every source definition that follows the grammar (a registered
  type, no segment with more than one \<open>=\<close>, as many positional segments as the
  constructor takes) and has no filter named like a parameter of the constructor (\<open>self\<close>,
  and for github \<open>user\<close> and \<open>repo\<close>), \<open>parse_source\<close> returns a source of the type its first
  segment names, whose positional arguments are the segments without \<open>=\<close>, in
  left-to-right order, and whose filters send each key to the list of the values of its
  \<open>key=val\<close> segments, in the order the segments appear, and hold no other key. In
  particular \<open>github:acme:widgets:state=open:state=closed\<close> gives a \<open>Github\<close> source with
  user \<open>acme\<close>, repo \<open>widgets\<close> and filters \<open>state = [open, closed]\<close>. A definition of the
  grammar with a filter named like a parameter makes the constructor call raise
  \<open>TypeError\<close>.
\<close>

theorem parse_source_grammatical:
  assumes "grammatical defn" and "split_on CHR '':'' defn = name # bits"
  shows "(\<not> shadows_parameter defn \<longrightarrow>
            (\<exists>src. parse_source defn = Inr src \<and>
               source_type src = name \<and>
               source_args src = map FStr (positional bits) \<and>
               distinct (map fst (source_filters src)) \<and>
               (\<forall>key. map_of (source_filters src) key =
                        (if values_of key bits = [] then None
                         else Some (FList (values_of key bits)))))) \<and>
         (shadows_parameter defn \<longrightarrow> parse_source defn = Inl TypeError)"
proof -
  let ?kw = "fold (\<lambda>kv. append_kwarg (fst kv) (snd kv)) (assignments bits) []"
  let ?fs = "map (\<lambda>(k, vs). (k, FList vs)) ?kw"
  from assms have name: "name = ''github'' \<or> name = ''bugzilla''"
    and ok: "\<forall>b \<in> set bits. count_list b CHR ''='' \<le> 1"
    and ar: "length (positional bits) = arity name"
    by (simp_all add: grammatical_def)
  from assms(2) have sh: "shadows_parameter defn \<longleftrightarrow>
      (\<exists>kv \<in> set (assignments bits). fst kv \<in> set (parameter_names name))"
    by (simp add: shadows_parameter_def)
  have pb: "parse_bits bits [] [] = Inr (positional bits, ?kw)"
    using parse_bits_valid [OF ok, of "[]" "[]"] by simp
  have "fst ` set ?fs = fst ` set (assignments bits)"
    by (simp only: keys_FList keys_fold_append_kwarg) simp
  then have keys: "k \<in> set (map fst ?fs) \<longleftrightarrow> k \<in> fst ` set (assignments bits)" for k
    by (simp only: set_map)
  have filters: "map_of ?fs key =
      (if values_of key bits = [] then None else Some (FList (values_of key bits)))" for key
    by (simp add: map_of_FList map_of_fold_append_kwarg values_of_def)
  have dist: "distinct (map fst ?fs)"
    by (simp only: map_fst_FList) (simp add: distinct_fold_append_kwarg)
  from name show ?thesis
  proof
    assume g: "name = ''github''"
    with ar obtain u r where pos: "positional bits = [u, r]"
      by (auto simp: arity_def length_Suc_conv numeral_2_eq_2)
    from pb pos g assms(2) have ps: "parse_source defn = Github_init [u, r] ?fs"
      by (simp add: parse_source_def SOURCE_TYPES_def)
    from sh g have sh': "shadows_parameter defn \<longleftrightarrow>
        ''self'' \<in> fst ` set (assignments bits) \<or> ''user'' \<in> fst ` set (assignments bits) \<or>
        ''repo'' \<in> fst ` set (assignments bits)"
      by (simp add: parameter_names_def image_iff Bex_def) metis
    show ?thesis
    proof (intro conjI impI)
      assume "\<not> shadows_parameter defn"
      with sh' keys have "''self'' \<notin> set (map fst ?fs)" "''user'' \<notin> set (map fst ?fs)"
        "''repo'' \<notin> set (map fst ?fs)"
        by blast+
      then have "Github_init [u, r] ?fs = Inr (Github (FStr u) (FStr r) ?fs)"
        by (simp add: Github_init_def)
      with ps have "parse_source defn = Inr (Github (FStr u) (FStr r) ?fs)" by simp
      with g pos filters dist
      show "\<exists>src. parse_source defn = Inr src \<and>
               source_type src = name \<and>
               source_args src = map FStr (positional bits) \<and>
               distinct (map fst (source_filters src)) \<and>
               (\<forall>key. map_of (source_filters src) key =
                        (if values_of key bits = [] then None
                         else Some (FList (values_of key bits))))"
        by simp
    next
      assume "shadows_parameter defn"
      with sh' keys have "''self'' \<in> set (map fst ?fs) \<or> ''user'' \<in> set (map fst ?fs) \<or>
        ''repo'' \<in> set (map fst ?fs)"
        by blast
      then have "Github_init [u, r] ?fs = Inl TypeError"
        by (auto simp: Github_init_def)
      with ps show "parse_source defn = Inl TypeError" by simp
    qed
  next
    assume b: "name = ''bugzilla''"
    with ar have pos: "positional bits = []" by (simp add: arity_def)
    from pb pos b assms(2) have ps: "parse_source defn = Bugzilla_init [] ?fs"
      by (simp add: parse_source_def SOURCE_TYPES_def)
    from sh b have sh': "shadows_parameter defn \<longleftrightarrow>
        ''self'' \<in> fst ` set (assignments bits)"
      by (simp add: parameter_names_def image_iff Bex_def)
    show ?thesis
    proof (intro conjI impI)
      assume "\<not> shadows_parameter defn"
      with sh' keys have "''self'' \<notin> set (map fst ?fs)" by blast
      then have "Bugzilla_init [] ?fs = Inr (Bugzilla ?fs)"
        by (simp add: Bugzilla_init_def)
      with ps have "parse_source defn = Inr (Bugzilla ?fs)" by simp
      with b pos filters dist
      show "\<exists>src. parse_source defn = Inr src \<and>
               source_type src = name \<and>
               source_args src = map FStr (positional bits) \<and>
               distinct (map fst (source_filters src)) \<and>
               (\<forall>key. map_of (source_filters src) key =
                        (if values_of key bits = [] then None
                         else Some (FList (values_of key bits))))"
        by simp
    next
      assume "shadows_parameter defn"
      with sh' keys have "''self'' \<in> set (map fst ?fs)" by blast
      then have "Bugzilla_init [] ?fs = Inl TypeError"
        by (simp add: Bugzilla_init_def)
      with ps show "parse_source defn = Inl TypeError" by simp
    qed
  qed
qed

theorem parse_source_grammatical_witness:
  "grammatical ''github:acme:widgets:state=open:state=closed'' \<and>
   \<not> shadows_parameter ''github:acme:widgets:state=open:state=closed'' \<and>
   parse_source ''github:acme:widgets:state=open:state=closed'' =
     Inr (Github (FStr ''acme'') (FStr ''widgets'') [(''state'', FList [''open'', ''closed''])]) \<and>
   (\<exists>src. parse_source ''github:acme:widgets:state=open:state=closed'' = Inr src \<and>
      source_type src = ''github'' \<and>
      source_args src = [FStr ''acme'', FStr ''widgets''] \<and>
      map_of (source_filters src) ''state'' = Some (FList [''open'', ''closed'']))"
  using grammatical_example not_shadowing_example parse_example
    parse_source_grammatical [OF grammatical_example split_example]
  by (simp add: positional_def)

text \<open>The claim as written fails for a definition of the grammar whose filter has the
  name of a constructor parameter: the constructor call raises \<open>TypeError\<close>.\<close>

theorem filter_named_like_parameter_counterexample:
  "grammatical ''github:acme:widgets:user=bob'' \<and>
   parse_source ''github:acme:widgets:user=bob'' = Inl TypeError \<and>
   grammatical ''bugzilla:self=x'' \<and>
   parse_source ''bugzilla:self=x'' = Inl TypeError"
proof -
  have "grammatical ''github:acme:widgets:user=bob''" by code_simp
  moreover have "parse_source ''github:acme:widgets:user=bob'' = Inl TypeError"
    by (simp add: parse_source_def SOURCE_TYPES_def Github_init_def)
  moreover have "grammatical ''bugzilla:self=x''" by code_simp
  moreover have "parse_source ''bugzilla:self=x'' = Inl TypeError"
    by (simp add: parse_source_def SOURCE_TYPES_def Bugzilla_init_def)
  ultimately show ?thesis by blast
qed

lemma append_kwarg_strings:
  "(\<forall>kv \<in> set (append_kwarg k v kwargs). P (fst kv) \<and> (\<forall>x \<in> set (snd kv). P x)) \<longleftrightarrow>
   P k \<and> P v \<and> (\<forall>kv \<in> set kwargs. P (fst kv) \<and> (\<forall>x \<in> set (snd kv). P x))"
  by (induction k v kwargs rule: append_kwarg.induct) auto

lemma parse_bits_strings:
  assumes "parse_bits bits args kwargs = Inr (args', kwargs')"
    and "\<forall>a \<in> set args. CHR ''='' \<notin> set a"
    and "\<forall>kv \<in> set kwargs. CHR ''='' \<notin> set (fst kv) \<and> (\<forall>x \<in> set (snd kv). CHR ''='' \<notin> set x)"
  shows "(\<forall>a \<in> set args'. CHR ''='' \<notin> set a) \<and>
         (\<forall>kv \<in> set kwargs'. CHR ''='' \<notin> set (fst kv) \<and> (\<forall>x \<in> set (snd kv). CHR ''='' \<notin> set x))"
  using assms
proof (induction bits args kwargs rule: parse_bits.induct)
  case (1 args kwargs)
  then show ?case by simp
next
  case (2 b bits args kwargs)
  show ?case
  proof (cases "CHR ''='' \<in> set b")
    case True
    with "2.prems"(1) obtain key val where s: "split_on CHR ''='' b = [key, val]"
      and r: "parse_bits bits args (append_kwarg key val kwargs) = Inr (args', kwargs')"
      by (auto split: list.splits)
    from s have "key \<in> set (split_on CHR ''='' b)" "val \<in> set (split_on CHR ''='' b)" by simp_all
    then have "CHR ''='' \<notin> set key" "CHR ''='' \<notin> set val" by (auto dest: split_on_parts)
    with "2.prems"(3)
    have "\<forall>kv \<in> set (append_kwarg key val kwargs).
            CHR ''='' \<notin> set (fst kv) \<and> (\<forall>x \<in> set (snd kv). CHR ''='' \<notin> set x)"
      by (simp only: append_kwarg_strings [where P = "\<lambda>s. CHR ''='' \<notin> set s"]) simp
    from "2.IH"(1) [OF True s refl refl r "2.prems"(2) this] show ?thesis .
  next
    case False
    with "2.prems"(1) have r: "parse_bits bits (args @ [b]) kwargs = Inr (args', kwargs')" by simp
    from False "2.prems"(2) have "\<forall>a \<in> set (args @ [b]). CHR ''='' \<notin> set a" by simp
    from "2.IH"(2) [OF False r this "2.prems"(3)] show ?thesis .
  qed
qed

lemma Github_init_Inr:
  assumes "Github_init args kwargs = Inr src"
  shows "(\<exists>u r. args = [] \<and> map_of kwargs ''user'' = Some u \<and> map_of kwargs ''repo'' = Some r \<and>
            src = Github u r (without ''user'' (without ''repo'' kwargs))) \<or>
         (\<exists>a r. args = [a] \<and> map_of kwargs ''repo'' = Some r \<and>
            src = Github (FStr a) r (without ''repo'' kwargs)) \<or>
         (\<exists>a b. args = [a, b] \<and> src = Github (FStr a) (FStr b) kwargs)"
proof (cases args)
  case Nil
  with assms show ?thesis
    by (auto simp: Github_init_def split: if_splits option.splits)
next
  case (Cons a as)
  show ?thesis
  proof (cases as)
    case Nil
    with Cons assms show ?thesis
      by (auto simp: Github_init_def split: if_splits option.splits)
  next
    case (Cons b bs)
    with \<open>args = a # as\<close> assms have "bs = []" "src = Github (FStr a) (FStr b) kwargs"
      by (auto simp: Github_init_def split: if_splits)
    with Cons \<open>args = a # as\<close> show ?thesis by simp
  qed
qed

lemma without_subset: "set (without k kvs) \<subseteq> set kvs"
  by (auto simp: without_def)

lemma source_strings_Github:
  "s \<in> set (source_strings (Github u r fs)) \<longleftrightarrow>
     s \<in> set (fval_strings u) \<or> s \<in> set (fval_strings r) \<or>
     (\<exists>kv \<in> set fs. s = fst kv \<or> s \<in> set (fval_strings (snd kv)))"
  by (auto simp: source_strings_def)

lemma source_strings_Bugzilla:
  "s \<in> set (source_strings (Bugzilla fs)) \<longleftrightarrow>
     (\<exists>kv \<in> set fs. s = fst kv \<or> s \<in> set (fval_strings (snd kv)))"
  by (auto simp: source_strings_def)

lemma map_of_value_strings:
  assumes "map_of kwargs k = Some v" and "s \<in> set (fval_strings v)"
  shows "\<exists>kv \<in> set kwargs. s = fst kv \<or> s \<in> set (fval_strings (snd kv))"
proof -
  from assms(1) have "(k, v) \<in> set kwargs" by (rule map_of_SomeD)
  with assms(2) show ?thesis by (intro bexI [of _ "(k, v)"]) simp_all
qed

lemma Github_init_strings:
  assumes g: "Github_init args kwargs = Inr src"
    and s: "s \<in> set (source_strings src)"
  shows "s \<in> set args \<or> (\<exists>kv \<in> set kwargs. s = fst kv \<or> s \<in> set (fval_strings (snd kv)))"
proof -
  let ?K = "\<lambda>kvs. \<exists>kv \<in> set kvs. s = fst kv \<or> s \<in> set (fval_strings (snd kv))"
  have sub: "?K (without k kvs) \<Longrightarrow> ?K kvs" for k and kvs :: "(string \<times> fval) list"
    using without_subset [of k kvs] by blast
  from Github_init_Inr [OF g] show ?thesis
  proof (elim disjE exE conjE)
    fix u r
    assume u: "map_of kwargs ''user'' = Some u" and r: "map_of kwargs ''repo'' = Some r"
      and src: "src = Github u r (without ''user'' (without ''repo'' kwargs))"
    from s have "s \<in> set (fval_strings u) \<or> s \<in> set (fval_strings r) \<or>
        ?K (without ''user'' (without ''repo'' kwargs))"
      unfolding src source_strings_Github .
    then have "?K kwargs"
    proof (elim disjE)
      assume "s \<in> set (fval_strings u)"
      with u show ?thesis by (rule map_of_value_strings)
    next
      assume "s \<in> set (fval_strings r)"
      with r show ?thesis by (rule map_of_value_strings)
    next
      assume "?K (without ''user'' (without ''repo'' kwargs))"
      then have "?K (without ''repo'' kwargs)" by (rule sub)
      then show ?thesis by (rule sub)
    qed
    then show ?thesis ..
  next
    fix a r
    assume args: "args = [a]" and r: "map_of kwargs ''repo'' = Some r"
      and src: "src = Github (FStr a) r (without ''repo'' kwargs)"
    from s have "s \<in> set (fval_strings (FStr a)) \<or> s \<in> set (fval_strings r) \<or>
        ?K (without ''repo'' kwargs)"
      unfolding src source_strings_Github .
    then show ?thesis
    proof (elim disjE)
      assume "s \<in> set (fval_strings (FStr a))"
      with args show ?thesis by simp
    next
      assume "s \<in> set (fval_strings r)"
      with r have "?K kwargs" by (rule map_of_value_strings)
      then show ?thesis ..
    next
      assume "?K (without ''repo'' kwargs)"
      then have "?K kwargs" by (rule sub)
      then show ?thesis ..
    qed
  next
    fix a b
    assume args: "args = [a, b]" and src: "src = Github (FStr a) (FStr b) kwargs"
    from s have "s \<in> set (fval_strings (FStr a)) \<or> s \<in> set (fval_strings (FStr b)) \<or>
        ?K kwargs"
      unfolding src source_strings_Github .
    then show ?thesis
    proof (elim disjE)
      assume "s \<in> set (fval_strings (FStr a))"
      with args show ?thesis by simp
    next
      assume "s \<in> set (fval_strings (FStr b))"
      with args show ?thesis by simp
    next
      assume "?K kwargs"
      then show ?thesis ..
    qed
  qed
qed

lemma init_strings:
  assumes "SOURCE_TYPES name = Some source_class"
    and "source_class args kwargs = Inr src"
    and "s \<in> set (source_strings src)"
  shows "s \<in> set args \<or> (\<exists>kv \<in> set kwargs. s = fst kv \<or> s \<in> set (fval_strings (snd kv)))"
proof -
  from assms(1) have "source_class = Github_init \<or> source_class = Bugzilla_init"
    by (auto simp: SOURCE_TYPES_def split: if_splits)
  then show ?thesis
  proof
    assume "source_class = Github_init"
    with assms(2) have "Github_init args kwargs = Inr src" by simp
    from Github_init_strings [OF this assms(3)] show ?thesis .
  next
    assume "source_class = Bugzilla_init"
    with assms(2) have "src = Bugzilla kwargs"
      by (auto simp: Bugzilla_init_def split: if_splits)
    with assms(3)
    have "\<exists>kv \<in> set kwargs. s = fst kv \<or> s \<in> set (fval_strings (snd kv))"
      by (simp only: source_strings_Bugzilla)
    then show ?thesis ..
  qed
qed

text \<open>
  Claim C10. For every source definition with a segment that has more than one \<open>=\<close>,
  \<open>parse_source\<close> raises: a \<open>ValueError\<close> from the unpacking of \<open>bit.split("=")\<close> when the
  type is registered and the segment comes after it, and the \<open>KeyError\<close> of the registry
  otherwise. Consequently no string of a parsed source, and so no filter value, contains
  \<open>=\<close>.
\<close>

theorem second_equals_sign_raises:
  "(seg \<in> set (split_on CHR '':'' defn) \<and> 1 < count_list seg CHR ''='' \<longrightarrow>
      (\<exists>e. parse_source defn = Inl e)) \<and>
   (split_on CHR '':'' defn = name # bits \<and> SOURCE_TYPES name \<noteq> None \<and>
    seg \<in> set bits \<and> 1 < count_list seg CHR ''='' \<longrightarrow>
      parse_source defn = Inl ValueError) \<and>
   (parse_source defn = Inr src \<longrightarrow> (\<forall>s \<in> set (source_strings src). CHR ''='' \<notin> set s))"
proof (intro conjI impI)
  assume a: "split_on CHR '':'' defn = name # bits \<and> SOURCE_TYPES name \<noteq> None \<and>
    seg \<in> set bits \<and> 1 < count_list seg CHR ''=''"
  then have "parse_bits bits [] [] = Inl ValueError"
    using parse_bits_many [of bits "[]" "[]"] by blast
  with a show "parse_source defn = Inl ValueError"
    by (auto simp: parse_source_def)
next
  assume a: "seg \<in> set (split_on CHR '':'' defn) \<and> 1 < count_list seg CHR ''=''"
  obtain name bits where s: "split_on CHR '':'' defn = name # bits"
    by (cases "split_on CHR '':'' defn") simp_all
  show "\<exists>e. parse_source defn = Inl e"
  proof (cases "SOURCE_TYPES name")
    case None
    with s show ?thesis by (simp add: parse_source_def)
  next
    case (Some source_class)
    then have "seg \<noteq> name" using a
      by (auto simp: SOURCE_TYPES_def split: if_splits)
    with a s have "seg \<in> set bits" by auto
    with a have "parse_bits bits [] [] = Inl ValueError"
      using parse_bits_many [of bits "[]" "[]"] by blast
    with s Some show ?thesis by (simp add: parse_source_def)
  qed
next
  assume p: "parse_source defn = Inr src"
  obtain name bits where s: "split_on CHR '':'' defn = name # bits"
    by (cases "split_on CHR '':'' defn") simp_all
  with p obtain source_class args kwargs where c: "SOURCE_TYPES name = Some source_class"
    and b: "parse_bits bits [] [] = Inr (args, kwargs)"
    and i: "source_class args (map (\<lambda>(k, vs). (k, FList vs)) kwargs) = Inr src"
    by (auto simp: parse_source_def ebind_Inr_iff split: option.splits)
  from parse_bits_strings [OF b]
  have ok: "\<forall>a \<in> set args. CHR ''='' \<notin> set a"
    "\<forall>kv \<in> set kwargs. CHR ''='' \<notin> set (fst kv) \<and> (\<forall>x \<in> set (snd kv). CHR ''='' \<notin> set x)"
    by simp_all
  show "\<forall>s \<in> set (source_strings src). CHR ''='' \<notin> set s"
  proof
    fix t assume "t \<in> set (source_strings src)"
    from init_strings [OF c i this] ok show "CHR ''='' \<notin> set t" by fastforce
  qed
qed

theorem second_equals_sign_raises_witness:
  "''status=a=b'' \<in> set (split_on CHR '':'' ''bugzilla:status=a=b'') \<and>
   1 < count_list ''status=a=b'' CHR ''='' \<and>
   parse_source ''bugzilla:status=a=b'' = Inl ValueError \<and>
   list_all (\<lambda>s. CHR ''='' \<notin> set s)
     (source_strings
       (Github (FStr ''acme'') (FStr ''widgets'') [(''state'', FList [''open'', ''closed''])]))"
  unfolding list_all_iff
  using second_equals_sign_raises [of "''status=a=b''" "''bugzilla:status=a=b''" "''bugzilla''"
      "[''status=a=b'']" undefined]
    second_equals_sign_raises [of undefined "''github:acme:widgets:state=open:state=closed''"
      undefined undefined
      "Github (FStr ''acme'') (FStr ''widgets'') [(''state'', FList [''open'', ''closed''])]"]
    parse_example
  by (simp add: SOURCE_TYPES_def)

section \<open>Properties of the Bugzilla request\<close>

lemma hex_digit_set: "hex_digit n \<in> set ''0123456789ABCDEF''"
proof -
  have "n mod 16 < length ''0123456789ABCDEF''" by simp
  then show ?thesis unfolding hex_digit_def by (rule nth_mem)
qed

lemma hex_digit_not_eq: "hex_digit n \<noteq> CHR ''=''"
  using hex_digit_set [of n] by auto

lemma quote_plus_Nil [simp]: "quote_plus [] = []"
  by (simp add: quote_plus_def)

lemma quote_plus_Cons:
  "quote_plus (c # s) =
     (if c \<in> set always_safe then [c]
      else if c = CHR '' '' then ''+''
      else [CHR ''%'', hex_digit (of_char c div 16), hex_digit (of_char c)]) @ quote_plus s"
  by (simp add: quote_plus_def)

lemma eq_not_safe: "CHR ''='' \<notin> set always_safe"
  by (simp add: always_safe_def)

lemma quote_plus_no_eq: "CHR ''='' \<notin> set (quote_plus k)"
proof (induction k)
  case Nil
  show ?case by simp
next
  case (Cons c k)
  have "CHR ''='' \<noteq> hex_digit n" for n
    by (rule not_sym) (rule hex_digit_not_eq)
  with Cons eq_not_safe show ?case
    by (auto simp: quote_plus_Cons)
qed

lemma quote_plus_safe: "set (quote_plus k) \<subseteq> set always_safe \<Longrightarrow> quote_plus k = k"
  by (induction k) (auto simp: quote_plus_Cons always_safe_def split: if_splits)

lemma query_item_key:
  assumes "item \<in> set (query_items (k, v))"
  shows "takeWhile (\<lambda>c. c \<noteq> CHR ''='') item = quote_plus k"
proof -
  from assms obtain rest where "item = quote_plus k @ CHR ''='' # rest"
    by (cases v) auto
  then show ?thesis
    using quote_plus_no_eq [of k] by (auto simp: takeWhile_tail)
qed

lemma urlencode_example:
  "urlencode [(''status'', FList [''NEW'', ''ASSIGNED''])] = ''status=NEW&status=ASSIGNED''"
  by (simp add: urlencode_def quote_plus_def always_safe_def)


lemma Bugzilla_get_issues_world:
  "snd (snd (Bugzilla_get_issues lib f s w filters)) = snd (urlopen lib w (Bugzilla_url filters))"
  unfolding Bugzilla_get_issues_def
  by (cases "urlopen lib w (Bugzilla_url filters)")
     (simp split: sum.splits prod.splits)

text \<open>
  Claim C8. For every Bugzilla source, the URL that \<open>get_issues\<close> requests is the API base,
  \<open>?\<close>, and the serialization of the filters the constructor received, a list value
  giving one \<open>key=value\<close> for each of its elements; it is the only request made, whatever
  the network answers: the world \<open>get_issues\<close> leaves is the one that this single request
  leaves, and a network that logs every URL it is asked for, and answers as it likes, has
  logged this URL and no other. The \<open>include_fields\<close> entry that \<open>get_issues\<close> computes is
  not in it: unless the constructor's filters have that key themselves, no item of the
  query has the key \<open>include_fields\<close>.
\<close>

theorem Bugzilla_query_is_own_filters:
  "Bugzilla_url filters = Bugzilla_API_BASE @ ''?'' @ urlencode filters \<and>
   urlencode filters = join ''&'' (concat (map query_items filters)) \<and>
   query_items (k, FList vs) = map (\<lambda>v. quote_plus k @ ''='' @ quote_plus v) vs \<and>
   snd (snd (Bugzilla_get_issues lib f s w filters)) =
     snd (urlopen lib w (Bugzilla_API_BASE @ ''?'' @ urlencode filters)) \<and>
   snd (snd (Bugzilla_get_issues
     \<lparr>urlopen = (\<lambda>log url. (answer log url, log @ [url])), urljoin = uj, py_repr = rp\<rparr>
     f s log filters)) = log @ [Bugzilla_API_BASE @ ''?'' @ urlencode filters] \<and>
   (''include_fields'' \<notin> set (map fst filters) \<longrightarrow>
      (\<forall>item \<in> set (concat (map query_items filters)).
         takeWhile (\<lambda>c. c \<noteq> CHR ''='') item \<noteq> ''include_fields''))"
proof (intro conjI impI ballI)
  show url: "Bugzilla_url filters = Bugzilla_API_BASE @ ''?'' @ urlencode filters"
    by (simp add: Bugzilla_url_def)
  show "snd (snd (Bugzilla_get_issues lib f s w filters)) =
     snd (urlopen lib w (Bugzilla_API_BASE @ ''?'' @ urlencode filters))"
    by (simp only: Bugzilla_get_issues_world url)
  show "snd (snd (Bugzilla_get_issues
     \<lparr>urlopen = (\<lambda>log url. (answer log url, log @ [url])), urljoin = uj, py_repr = rp\<rparr>
     f s log filters)) = log @ [Bugzilla_API_BASE @ ''?'' @ urlencode filters]"
    by (simp only: Bugzilla_get_issues_world url) simp
  show "urlencode filters = join ''&'' (concat (map query_items filters))"
    by (simp add: urlencode_def)
  show "query_items (k, FList vs) = map (\<lambda>v. quote_plus k @ ''='' @ quote_plus v) vs"
    by simp
next
  fix item
  assume absent: "''include_fields'' \<notin> set (map fst filters)"
    and "item \<in> set (concat (map query_items filters))"
  then obtain k' v where kv: "(k', v) \<in> set filters" and item: "item \<in> set (query_items (k', v))"
    by auto
  show "takeWhile (\<lambda>c. c \<noteq> CHR ''='') item \<noteq> ''include_fields''"
  proof
    assume "takeWhile (\<lambda>c. c \<noteq> CHR ''='') item = ''include_fields''"
    with query_item_key [OF item] have q: "quote_plus k' = ''include_fields''" by simp
    then have "set (quote_plus k') \<subseteq> set always_safe" by (simp add: always_safe_def)
    from quote_plus_safe [OF this] q have "k' = ''include_fields''" by simp
    with kv absent show False by force
  qed
qed

theorem Bugzilla_query_is_own_filters_witness:
  "''include_fields'' \<notin> set (map fst [(''status'', FList [''NEW'', ''ASSIGNED''])]) \<and>
   Bugzilla_url [(''status'', FList [''NEW'', ''ASSIGNED''])] =
     ''https://api-dev.bugzilla.mozilla.org/latest/bug?status=NEW&status=ASSIGNED'' \<and>
   snd (snd (Bugzilla_get_issues
     \<lparr>urlopen = (\<lambda>log url.
         (Inr \<lparr>body = Inr (JObj [(''bugs'', JArr [plain_bug])]), link = None\<rparr>, log @ [url])),
      urljoin = (@), py_repr = (\<lambda>v. [])\<rparr>
     yield [] [] [(''status'', FList [''NEW'', ''ASSIGNED''])])) =
     [''https://api-dev.bugzilla.mozilla.org/latest/bug?status=NEW&status=ASSIGNED''] \<and>
   list_all (\<lambda>item. takeWhile (\<lambda>c. c \<noteq> CHR ''='') item \<noteq> ''include_fields'')
     (concat (map query_items [(''status'', FList [''NEW'', ''ASSIGNED''])]))"
proof -
  let ?filters = "[(''status'', FList [''NEW'', ''ASSIGNED''])]"
  let ?url = "''https://api-dev.bugzilla.mozilla.org/latest/bug?status=NEW&status=ASSIGNED''"
  note own = Bugzilla_query_is_own_filters [where filters = ?filters and k = "''status''"
      and vs = "[]" and uj = "(@)" and rp = "\<lambda>v. []" and log = "[]" and s = "[]"
      and f = "yield :: json list \<Rightarrow> json \<Rightarrow> error + json list"
      and answer = "\<lambda>log url.
         Inr \<lparr>body = Inr (JObj [(''bugs'', JArr [plain_bug])]), link = None\<rparr>"
      and lib = "mock_lib" and w = "[]"]
  have absent: "''include_fields'' \<notin> set (map fst ?filters)" by simp
  have base: "Bugzilla_API_BASE @ ''?'' @ urlencode ?filters = ?url"
    by (simp add: urlencode_example Bugzilla_API_BASE_def)
  from own have "Bugzilla_url ?filters = Bugzilla_API_BASE @ ''?'' @ urlencode ?filters"
    by (rule conjunct1)
  then have "Bugzilla_url ?filters = ?url"
    by (simp only: base)
  moreover from own have "snd (snd (Bugzilla_get_issues
     \<lparr>urlopen = (\<lambda>log url.
         (Inr \<lparr>body = Inr (JObj [(''bugs'', JArr [plain_bug])]), link = None\<rparr>, log @ [url])),
      urljoin = (@), py_repr = (\<lambda>v. [])\<rparr>
     yield [] [] ?filters)) = [] @ [Bugzilla_API_BASE @ ''?'' @ urlencode ?filters]"
    by blast
  then have "snd (snd (Bugzilla_get_issues
     \<lparr>urlopen = (\<lambda>log url.
         (Inr \<lparr>body = Inr (JObj [(''bugs'', JArr [plain_bug])]), link = None\<rparr>, log @ [url])),
      urljoin = (@), py_repr = (\<lambda>v. [])\<rparr>
     yield [] [] ?filters)) = [?url]"
    by (simp only: base append_Nil)
  moreover from own absent
  have "\<forall>item \<in> set (concat (map query_items ?filters)).
         takeWhile (\<lambda>c. c \<noteq> CHR ''='') item \<noteq> ''include_fields''"
    by blast
  ultimately show ?thesis using absent unfolding list_all_iff by blast
qed

section \<open>Properties of the generators\<close>

lemma feed_yield: "feed yield s xs = (s @ xs, None)"
  by (induction xs arbitrary: s) (simp_all add: yield_def)

lemma feed_append:
  "feed f s (xs @ ys) = (case feed f s xs of (s', None) \<Rightarrow> feed f s' ys | (s', Some e) \<Rightarrow> (s', Some e))"
  by (induction xs arbitrary: s) (auto split: sum.splits)

lemma feed_invariant:
  assumes "feed f s xs = (s', r)" and "P s"
    and "\<And>s x s'. P s \<Longrightarrow> x \<in> set xs \<Longrightarrow> f s x = Inr s' \<Longrightarrow> P s'"
  shows "P s'"
  using assms
proof (induction xs arbitrary: s)
  case Nil
  then show ?case by simp
next
  case (Cons x xs)
  show ?case
  proof (cases "f s x")
    case (Inl e)
    with Cons.prems show ?thesis by simp
  next
    case (Inr s1)
    with Cons.prems(1) have "feed f s1 xs = (s', r)" by simp
    moreover have "P s1" using Cons.prems(2) Inr Cons.prems(3) [of s x s1] by simp
    ultimately show ?thesis using Cons.prems(3) by (intro Cons.IH [of s1]) auto
  qed
qed

lemma Github_pages_invariant:
  assumes "Github_pages n lib f s w url = Some (s', r, w')" and "P s"
    and "\<And>s x s'. P s \<Longrightarrow> f s x = Inr s' \<Longrightarrow> P s'"
  shows "P s'"
  using assms(1,2)
proof (induction n arbitrary: s w url)
  case 0
  then show ?case by (simp split: if_splits)
next
  case (Suc n)
  show ?case
  proof (cases "url = []")
    case True
    with Suc.prems show ?thesis by simp
  next
    case False
    obtain res w1 where u: "urlopen lib w url = (res, w1)" by (cases "urlopen lib w url")
    show ?thesis
    proof (cases res)
      case (Inl e)
      with Suc.prems False u show ?thesis by simp
    next
      case (Inr resp)
      show ?thesis
      proof (cases "ebind (body resp) py_iter")
        case (Inl e)
        with Suc.prems False u Inr show ?thesis by simp
      next
        case issues: (Inr issues)
        obtain s1 r1 where fd: "feed f s issues = (s1, r1)" by (cases "feed f s issues")
        have P1: "P s1"
          by (rule feed_invariant [of f s issues s1 r1 P, OF fd Suc.prems(2)]) (rule assms(3))
        show ?thesis
        proof (cases r1)
          case (Some e)
          with Suc.prems False u Inr issues fd P1 show ?thesis by simp
        next
          case None
          show ?thesis
          proof (cases "next_url (link resp)")
            case (Inl e)
            with Suc.prems False u Inr issues fd P1 None show ?thesis by simp
          next
            case url': (Inr url')
            with Suc.prems(1) False u Inr issues fd None
            have "Github_pages n lib f s1 w1 url' = Some (s', r, w')" by simp
            from Suc.IH [OF this P1] show ?thesis .
          qed
        qed
      qed
    qed
  qed
qed

lemma Github_pages_step:
  assumes "url \<noteq> []" and "urlopen lib w url = (Inr resp, w1)"
    and "ebind (body resp) py_iter = Inr issues"
    and "feed f s issues = (s1, None)"
  shows "Github_pages (Suc n) lib f s w url =
           (case next_url (link resp) of
              Inl e \<Rightarrow> Some (s1, Some e, w1)
            | Inr url' \<Rightarrow> Github_pages n lib f s1 w1 url')"
  using assms by simp

lemma Github_pages_success:
  assumes "Github_pages (Suc n) lib f s w url = Some (s', None, w')" and "url \<noteq> []"
  shows "\<exists>resp w1 issues s1 url'.
           urlopen lib w url = (Inr resp, w1) \<and>
           ebind (body resp) py_iter = Inr issues \<and>
           feed f s issues = (s1, None) \<and>
           next_url (link resp) = Inr url' \<and>
           Github_pages n lib f s1 w1 url' = Some (s', None, w')"
proof -
  obtain res w1 where u: "urlopen lib w url = (res, w1)" by (cases "urlopen lib w url")
  from assms u show ?thesis
    by (auto split: sum.splits prod.splits option.splits)
qed

lemma Github_pages_yield:
  "Github_pages n lib yield s w url =
     map_option (\<lambda>(xs, r, w'). (s @ xs, r, w')) (Github_pages n lib yield [] w url)"
proof (induction n arbitrary: s w url)
  case 0
  show ?case by simp
next
  case (Suc n)
  have IH: "Github_pages n lib yield (s @ issues) w1 url' =
     map_option (\<lambda>(xs, r, w'). (s @ xs, r, w'))
       (Github_pages n lib yield issues w1 url')" for issues w1 url'
    by (subst Suc.IH [of "s @ issues"], subst Suc.IH [of issues])
       (simp add: option.map_comp comp_def split_def)
  show ?case
    by (simp add: feed_yield IH split: sum.splits prod.splits)
qed

lemma Github_pages_fusion:
  assumes "Github_pages n lib f s w url = Some (s', None, w')"
  shows "\<exists>xs. Github_pages n lib yield [] w url = Some (xs, None, w') \<and>
              feed f s xs = (s', None)"
  using assms
proof (induction n arbitrary: s w url)
  case 0
  then show ?case by (simp split: if_splits)
next
  case (Suc n)
  show ?case
  proof (cases "url = []")
    case True
    with Suc.prems show ?thesis by simp
  next
    case False
    from Github_pages_success [OF Suc.prems False]
    obtain resp w1 issues s1 url' where u: "urlopen lib w url = (Inr resp, w1)"
      and b: "ebind (body resp) py_iter = Inr issues"
      and fd: "feed f s issues = (s1, None)"
      and nx: "next_url (link resp) = Inr url'"
      and rest: "Github_pages n lib f s1 w1 url' = Some (s', None, w')"
      by blast
    from Suc.IH [OF rest] obtain xs
      where xs: "Github_pages n lib yield [] w1 url' = Some (xs, None, w')"
        and fx: "feed f s1 xs = (s', None)"
      by blast
    have "Github_pages (Suc n) lib yield [] w url = Github_pages n lib yield issues w1 url'"
      using Github_pages_step [OF False u b, of yield "[]" issues n] nx
      by (simp add: feed_yield)
    also have "\<dots> = Some (issues @ xs, None, w')"
      by (subst Github_pages_yield) (simp add: xs)
    finally have "Github_pages (Suc n) lib yield [] w url = Some (issues @ xs, None, w')" .
    moreover from fd fx have "feed f s (issues @ xs) = (s', None)"
      by (simp add: feed_append)
    ultimately show ?thesis by blast
  qed
qed

section \<open>Properties of the Link header\<close>

lemma split_on_first: "c \<notin> set x \<Longrightarrow> split_on c (x @ c # rest) = x # split_on c rest"
  by (induction x) auto

lemma count_list_dropWhile: "\<not> P c \<Longrightarrow> count_list (dropWhile P s) c = count_list s c"
  by (induction s) auto

lemma count_list_strip_chars: "c \<notin> set chars \<Longrightarrow> count_list (strip_chars chars s) c = count_list s c"
  by (simp add: strip_chars_def count_list_dropWhile count_list_rev)

lemma strip_chars_fixed:
  assumes "s \<noteq> []" and "hd s \<notin> set chars" and "last s \<notin> set chars"
  shows "strip_chars chars s = s"
proof -
  from assms have "dropWhile (\<lambda>c. c \<in> set chars) s = s"
    by (cases s) auto
  moreover from assms have "dropWhile (\<lambda>c. c \<in> set chars) (rev s) = rev s"
    by (cases "rev s") (auto simp: hd_rev)
  ultimately show ?thesis by (simp add: strip_chars_def)
qed

lemma strip_chars_leading: "c \<in> set chars \<Longrightarrow> strip_chars chars (c # s) = strip_chars chars s"
  by (simp add: strip_chars_def)

lemma strip_chars_brackets:
  assumes "u \<noteq> []" and "hd u \<notin> set chars" and "last u \<notin> set chars"
    and "a \<in> set chars" and "b \<in> set chars"
  shows "strip_chars chars (a # u @ [b]) = u"
proof -
  from assms have "dropWhile (\<lambda>c. c \<in> set chars) (a # u @ [b]) = u @ [b]"
    by (cases u) auto
  moreover from assms have "dropWhile (\<lambda>c. c \<in> set chars) (rev (u @ [b])) = rev u"
    by (cases "rev u") (auto simp: hd_rev)
  ultimately show ?thesis by (simp add: strip_chars_def)
qed

text \<open>The key and the value the parser reads from an entry.\<close>

lemma link_item_entry:
  assumes "plain_text u" and "plain_text r"
  shows "link_item (link_entry (u, r)) = Inr (''rel='' @ [CHR 0x22] @ r @ [CHR 0x22], ''<'' @ u @ ''>'')"
    and "link_item (CHR '' '' # link_entry (u, r)) =
           Inr (''rel='' @ [CHR 0x22] @ r @ [CHR 0x22], ''<'' @ u @ ''>'')"
proof -
  let ?e = "link_entry (u, r)"
  let ?k = "''rel='' @ [CHR 0x22] @ r @ [CHR 0x22]"
  have e: "?e = (''<'' @ u @ ''>'') @ CHR '';'' # (CHR '' '' # ?k)"
    by (simp add: link_entry_def)
  have s: "strip ?e = ?e"
    unfolding strip_def
    by (rule strip_chars_fixed) (simp_all add: link_entry_def whitespace_def)
  have s': "strip (CHR '' '' # ?e) = ?e"
    unfolding strip_def using s [unfolded strip_def]
    by (simp add: strip_chars_leading whitespace_def)
  from assms have "CHR '';'' \<notin> set (''<'' @ u @ ''>'')" "CHR '';'' \<notin> set (CHR '' '' # ?k)"
    by (auto simp: plain_text_def)
  then have sp: "split_on CHR '';'' ?e = [''<'' @ u @ ''>'', CHR '' '' # ?k]"
    by (subst e, subst split_on_first) (simp_all only: split_on_absent not_False_eq_True)
  have v: "strip (''<'' @ u @ ''>'') = ''<'' @ u @ ''>''"
    unfolding strip_def by (rule strip_chars_fixed) (simp_all add: whitespace_def)
  have "strip ?k = ?k"
    unfolding strip_def by (rule strip_chars_fixed) (simp_all add: whitespace_def)
  then have k: "strip (CHR '' '' # ?k) = ?k"
    unfolding strip_def by (simp add: strip_chars_leading whitespace_def)
  show "link_item ?e = Inr (?k, ''<'' @ u @ ''>'')"
    unfolding link_item_def s sp using v k by simp
  show "link_item (CHR '' '' # ?e) = Inr (?k, ''<'' @ u @ ''>'')"
    unfolding link_item_def s' sp using v k by simp
qed

lemma split_on_Cons_other:
  "x \<noteq> c \<Longrightarrow> split_on c (x # s) = (x # hd (split_on c s)) # tl (split_on c s)"
  by (cases "split_on c s") (simp_all add: split_on_not_Nil)

lemma link_entry_no_comma:
  "plain_text (fst e) \<Longrightarrow> plain_text (snd e) \<Longrightarrow> CHR '','' \<notin> set (link_entry e)"
  by (auto simp: link_entry_def plain_text_def)

lemma split_link_header:
  assumes "es \<noteq> []" and "\<forall>e \<in> set es. plain_text (fst e) \<and> plain_text (snd e)"
  shows "split_on CHR '','' (link_header es) =
           link_entry (hd es) # map (\<lambda>e. CHR '' '' # link_entry e) (tl es)"
  using assms
proof (induction es)
  case Nil
  then show ?case by simp
next
  case (Cons e es)
  from Cons.prems have ne: "CHR '','' \<notin> set (link_entry e)"
    by (simp add: link_entry_no_comma)
  show ?case
  proof (cases es)
    case Nil
    with ne show ?thesis by (simp add: link_header_def split_on_absent)
  next
    case (Cons e' es')
    with Cons.IH Cons.prems
    have IH: "split_on CHR '','' (link_header es) =
           link_entry e' # map (\<lambda>e. CHR '' '' # link_entry e) es'"
      by simp
    have "link_header (e # es) = link_entry e @ CHR '','' # (CHR '' '' # link_header es)"
      using Cons by (simp add: link_header_def)
    moreover have "split_on CHR '','' (link_entry e @ CHR '','' # (CHR '' '' # link_header es)) =
        link_entry e # split_on CHR '','' (CHR '' '' # link_header es)"
      using ne by (rule split_on_first)
    ultimately have "split_on CHR '','' (link_header (e # es)) =
        link_entry e # split_on CHR '','' (CHR '' '' # link_header es)"
      by (simp only:)
    also have "split_on CHR '','' (CHR '' '' # link_header es) =
        (CHR '' '' # link_entry e') # map (\<lambda>e. CHR '' '' # link_entry e) es'"
      by (subst split_on_Cons_other) (simp_all add: IH)
    finally show ?thesis using Cons by simp
  qed
qed

lemma collect_all_Inr: "collect_all (map (\<lambda>x. Inr (g x)) xs) = Inr (map g xs)"
  by (induction xs) simp_all

lemma link_items_header:
  assumes "plain_entries es"
  shows "collect_all (map link_item (split_on CHR '','' (link_header es))) =
           Inr (map entry_item es)"
proof -
  from assms have ne: "es \<noteq> []"
    and pl: "\<forall>e \<in> set es. plain_text (fst e) \<and> plain_text (snd e)"
    by (simp_all add: plain_entries_def)
  have a: "link_item (link_entry e) = Inr (entry_item e)"
    and b: "link_item (CHR '' '' # link_entry e) = Inr (entry_item e)"
    if "e \<in> set es" for e
    using that pl link_item_entry [of "fst e" "snd e"] by (simp_all add: entry_item_def)
  from ne obtain e es' where es: "es = e # es'" by (cases es) auto
  have "map link_item (split_on CHR '','' (link_header es)) =
      map (\<lambda>e. Inr (entry_item e)) es"
    unfolding split_link_header [OF ne pl] using a b by (simp add: es)
  then show ?thesis by (simp only: collect_all_Inr)
qed

lemma entry_item_next: "fst (entry_item e) = rel_next \<longleftrightarrow> snd e = ''next''"
  by (simp add: entry_item_def rel_next_def)

lemma map_of_entry_items:
  "map_of (rev (map entry_item es)) rel_next =
     (case next_targets es of [] \<Rightarrow> None | u # us \<Rightarrow> Some (''<'' @ last (u # us) @ ''>''))"
proof (induction es)
  case Nil
  show ?case by (simp add: next_targets_def)
next
  case (Cons e es)
  have k: "(rel_next = fst (entry_item e)) = (snd e = ''next'')"
    using entry_item_next [of e] by auto
  have v: "snd (entry_item e) = ''<'' @ fst e @ ''>''" by (simp add: entry_item_def)
  have m: "map_of [entry_item e] rel_next =
      (if snd e = ''next'' then Some (''<'' @ fst e @ ''>'') else None)"
    using k v by (cases "entry_item e") auto
  show ?case
    using Cons.IH m
    by (auto simp: map_add_def next_targets_def split: list.splits option.splits)
qed

lemma next_url_header:
  assumes "plain_entries es"
  shows "next_url (Some (link_header es)) =
     Inr (strip_chars ''<>''
       (case next_targets es of [] \<Rightarrow> [] | u # us \<Rightarrow> ''<'' @ last (u # us) @ ''>''))"
  by (simp add: next_url_def link_items_header [OF assms] map_of_entry_items
      split: list.splits)

lemma next_url_absent: "next_url None = Inr []"
  by (simp add: next_url_def link_item_def strip_def strip_chars_def whitespace_def)

lemma next_url_target:
  assumes "plain_entries es" and "next_targets es = [u]" and "bare_url u"
  shows "next_url (Some (link_header es)) = Inr u"
proof -
  from assms(3) have "strip_chars ''<>'' (CHR ''<'' # u @ [CHR ''>'']) = u"
    by (intro strip_chars_brackets) (simp_all add: bare_url_def)
  with assms(1,2) show ?thesis by (simp add: next_url_header)
qed

lemma next_url_none:
  assumes "plain_entries es" and "next_targets es = []"
  shows "next_url (Some (link_header es)) = Inr []"
  using assms by (simp add: next_url_header strip_chars_def)

section \<open>Properties of the pagination\<close>

lemma serves_pages:
  assumes "serves lib w url pages w'" and "length pages \<le> n"
  shows "Github_pages n lib yield s w url = Some (s @ concat (map fst pages), None, w')"
  using assms
proof (induction pages arbitrary: n s w url)
  case Nil
  then show ?case by simp
next
  case (Cons page pages)
  obtain issues l where page: "page = (issues, l)" by (cases page)
  from Cons.prems(2) obtain m where n: "n = Suc m" and m: "length pages \<le> m"
    by (cases n) auto
  from Cons.prems(1) page have url: "url \<noteq> []" by simp
  from Cons.prems(1) page url obtain resp w1 where u: "urlopen lib w url = (Inr resp, w1)"
    and b: "body resp = Inr (JArr issues)"
    and lk: "link resp = map_option link_header l"
    and pl: "case l of None \<Rightarrow> True | Some es \<Rightarrow> plain_entries es"
    and rest: "if pages = []
            then w1 = w' \<and> (case l of None \<Rightarrow> True | Some es \<Rightarrow> next_targets es = [])
            else (case l of
                    None \<Rightarrow> False
                  | Some es \<Rightarrow>
                      (case next_targets es of
                         [u] \<Rightarrow> bare_url u \<and> serves lib w1 u pages w'
                       | _ \<Rightarrow> False))"
    by (auto split: prod.splits sum.splits)
  from b have it: "ebind (body resp) py_iter = Inr issues" by simp
  have step: "Github_pages (Suc m) lib yield s w url =
           (case next_url (link resp) of
              Inl e \<Rightarrow> Some (s @ issues, Some e, w1)
            | Inr url' \<Rightarrow> Github_pages m lib yield (s @ issues) w1 url')"
    by (rule Github_pages_step [OF url u it]) (rule feed_yield)
  show ?case
  proof (cases "pages = []")
    case True
    with rest have w1: "w1 = w'"
      and nt: "case l of None \<Rightarrow> True | Some es \<Rightarrow> next_targets es = []"
      by simp_all
    have "next_url (link resp) = Inr []"
    proof (cases l)
      case None
      with lk show ?thesis by (simp add: next_url_absent)
    next
      case (Some es)
      with lk pl nt show ?thesis by (simp add: next_url_none)
    qed
    with step n w1 True page show ?thesis by (cases m) simp_all
  next
    case False
    with rest obtain es u where l: "l = Some es" and nt: "next_targets es = [u]"
      and bu: "bare_url u" and sv: "serves lib w1 u pages w'"
      by (auto split: option.splits list.splits)
    from l pl have "plain_entries es" by simp
    from next_url_target [OF this nt bu] lk l have "next_url (link resp) = Inr u" by simp
    with step have "Github_pages (Suc m) lib yield s w url =
        Github_pages m lib yield (s @ issues) w1 u"
      by simp
    also have "\<dots> = Some ((s @ issues) @ concat (map fst pages), None, w')"
      by (rule Cons.IH [OF sv m])
    finally show ?thesis using n page by simp
  qed
qed

lemma first_url_example:
  "Github_url mock_lib (FStr ''acme'') (FStr ''widgets'') [] =
     Inr ''https://api.github.com/repos/acme/widgets/issues?per_page=100''"
proof -
  have "show_nat 100 = ''100''" by code_simp
  then show ?thesis
    by (simp add: Github_url_def mock_lib_def Github_API_BASE_def setdefault_def urlencode_def
        quote_plus_def always_safe_def show_int_def)
qed




lemma Github_pages_Nil: "Github_pages n lib f s w [] = Some (s, None, w)"
  by (cases n) simp_all

lemma link_item_count:
  "link_item l = Inl ValueError \<longleftrightarrow> count_list l CHR '';'' \<noteq> 1"
  "(\<exists>kv. link_item l = Inr kv) \<longleftrightarrow> count_list l CHR '';'' = 1"
proof -
  let ?parts = "rev (map strip (split_on CHR '';'' (strip l)))"
  have "count_list (strip l) CHR '';'' = count_list l CHR '';''"
    unfolding strip_def by (rule count_list_strip_chars) (simp add: whitespace_def)
  then have len: "length ?parts = Suc (count_list l CHR '';'')"
    by (simp add: length_split_on)
  show "link_item l = Inl ValueError \<longleftrightarrow> count_list l CHR '';'' \<noteq> 1"
  proof (cases "count_list l CHR '';'' = 1")
    case True
    with len have "length ?parts = 2" by simp
    then obtain k v where "?parts = [k, v]"
      by (auto simp: length_Suc_conv numeral_2_eq_2)
    with True show ?thesis by (simp add: link_item_def)
  next
    case False
    with len have "length ?parts \<noteq> 2" by simp
    then have "\<not> (\<exists>k v. ?parts = [k, v])" by auto
    with False show ?thesis by (auto simp: link_item_def split: list.splits)
  qed
  then show "(\<exists>kv. link_item l = Inr kv) \<longleftrightarrow> count_list l CHR '';'' = 1"
    by (cases "link_item l") (auto simp: link_item_def split: list.splits)
qed

lemma collect_all_error:
  assumes "\<exists>m \<in> set ms. m = Inl e" and "\<forall>m \<in> set ms. \<forall>e'. m = Inl e' \<longrightarrow> e' = e"
  shows "collect_all ms = Inl e"
  using assms
proof (induction ms)
  case Nil
  then show ?case by simp
next
  case (Cons m ms)
  show ?case
  proof (cases m)
    case (Inl e')
    with Cons.prems(2) have "e' = e" by simp
    with Inl show ?thesis by simp
  next
    case (Inr x)
    with Cons.prems(1) have a: "\<exists>m \<in> set ms. m = Inl e" by auto
    from Cons.prems(2) have b: "\<forall>m \<in> set ms. \<forall>e'. m = Inl e' \<longrightarrow> e' = e" by simp
    from Cons.IH [OF a b] Inr show ?thesis by simp
  qed
qed

lemma collect_all_ok:
  assumes "\<forall>m \<in> set ms. \<exists>x. m = Inr x"
  shows "\<exists>xs. collect_all ms = Inr xs"
  using assms
proof (induction ms)
  case Nil
  show ?case by simp
next
  case (Cons m ms)
  from Cons.prems obtain x where m: "m = Inr x" by auto
  from Cons.prems have "\<forall>m \<in> set ms. \<exists>x. m = Inr x" by simp
  from Cons.IH [OF this] obtain xs where "collect_all ms = Inr xs" ..
  with m show ?case by simp
qed

lemma link_item_error: "link_item l = Inl e \<Longrightarrow> e = ValueError"
  unfolding link_item_def by (simp split: list.splits)

lemma next_url_malformed:
  assumes "\<exists>l \<in> set (split_on CHR '','' h). count_list l CHR '';'' \<noteq> 1"
  shows "next_url (Some h) = Inl ValueError"
proof -
  have "collect_all (map link_item (split_on CHR '','' h)) = Inl ValueError"
  proof (rule collect_all_error)
    from assms obtain l where "l \<in> set (split_on CHR '','' h)" "link_item l = Inl ValueError"
      using link_item_count(1) by blast
    then show "\<exists>m \<in> set (map link_item (split_on CHR '','' h)). m = Inl ValueError"
      by force
    show "\<forall>m \<in> set (map link_item (split_on CHR '','' h)). \<forall>e'. m = Inl e' \<longrightarrow> e' = ValueError"
      by (auto dest: link_item_error)
  qed
  then show ?thesis by (simp add: next_url_def)
qed

lemma next_url_wellformed:
  assumes "\<forall>l \<in> set (split_on CHR '','' h). count_list l CHR '';'' = 1"
  shows "\<exists>u. next_url (Some h) = Inr u"
proof -
  have "\<exists>xs. collect_all (map link_item (split_on CHR '','' h)) = Inr xs"
  proof (rule collect_all_ok)
    show "\<forall>m \<in> set (map link_item (split_on CHR '','' h)). \<exists>x. m = Inr x"
      using assms link_item_count(2) by auto
  qed
  then show ?thesis by (auto simp: next_url_def)
qed

lemma collect_all_items:
  "collect_all ms = Inr xs \<Longrightarrow> ms = map Inr xs"
proof (induction ms arbitrary: xs)
  case Nil
  then show ?case by simp
next
  case (Cons m ms)
  show ?case
  proof (cases m)
    case (Inl e)
    with Cons.prems show ?thesis by simp
  next
    case (Inr x)
    with Cons.prems obtain ys where ys: "collect_all ms = Inr ys" and xs: "xs = x # ys"
      by (cases "collect_all ms") (simp_all add: ebind_def)
    from Cons.IH [OF ys] Inr xs show ?thesis by simp
  qed
qed

lemma next_url_no_next:
  assumes "\<forall>l \<in> set (split_on CHR '','' h). \<exists>k v. link_item l = Inr (k, v) \<and> k \<noteq> rel_next"
  shows "next_url (Some h) = Inr []"
proof -
  let ?ms = "map link_item (split_on CHR '','' h)"
  have "\<exists>xs. collect_all ?ms = Inr xs"
  proof (rule collect_all_ok)
    show "\<forall>m \<in> set ?ms. \<exists>x. m = Inr x"
      using assms by auto
  qed
  then obtain items where items: "collect_all ?ms = Inr items" ..
  from collect_all_items [OF this] have ms: "?ms = map Inr items" .
  have "rel_next \<notin> fst ` set items"
  proof
    assume "rel_next \<in> fst ` set items"
    then obtain v where "(rel_next, v) \<in> set items" by auto
    then have "Inr (rel_next, v) \<in> set (map Inr items)" by simp
    with ms have "Inr (rel_next, v) \<in> set ?ms" by simp
    then obtain l where l: "l \<in> set (split_on CHR '','' h)"
      and "link_item l = Inr (rel_next, v)"
      by auto
    with assms show False by force
  qed
  then have "rel_next \<notin> fst ` set (rev items)" by simp
  then have "map_of (rev items) rel_next = None"
    by (simp add: map_of_eq_None_iff)
  with items show ?thesis by (simp add: next_url_def strip_chars_def)
qed

text \<open>
  Claim C5, as amended. Take a response that answers the request of \<open>Github.get_issues\<close>
  with a JSON array of issues. If it has no \<open>Link\<close> header, pagination stops silently
  after the issues of the page are yielded. If it has one, the header is cut at every
  comma, and each piece at every semicolon: a header with a piece that has no semicolon,
  or more than one, makes the parsing step raise \<open>ValueError\<close> once the issues of the page
  are yielded; a header whose pieces all have exactly one semicolon raises nothing, and
  pagination goes on with the URL read from it, which stops it silently when no piece has
  the key \<open>rel="next"\<close>.
\<close>

theorem absent_link_header_stops:
  assumes "url \<noteq> []" and "urlopen lib w url = (Inr resp, w')"
    and "body resp = Inr (JArr issues)"
  shows "(link resp = None \<longrightarrow>
            Github_pages (Suc n) lib yield s w url = Some (s @ issues, None, w')) \<and>
         (\<forall>h. link resp = Some h \<and>
               (\<exists>l \<in> set (split_on CHR '','' h). count_list l CHR '';'' \<noteq> 1) \<longrightarrow>
            Github_pages (Suc n) lib yield s w url = Some (s @ issues, Some ValueError, w')) \<and>
         (\<forall>h. link resp = Some h \<and>
               (\<forall>l \<in> set (split_on CHR '','' h). count_list l CHR '';'' = 1) \<longrightarrow>
            (\<exists>u. next_url (Some h) = Inr u \<and>
                 Github_pages (Suc n) lib yield s w url =
                   Github_pages n lib yield (s @ issues) w' u)) \<and>
         (\<forall>h. link resp = Some h \<and>
               (\<forall>l \<in> set (split_on CHR '','' h).
                  \<exists>k v. link_item l = Inr (k, v) \<and> k \<noteq> rel_next) \<longrightarrow>
            Github_pages (Suc n) lib yield s w url = Some (s @ issues, None, w'))"
proof -
  from assms(3) have it: "ebind (body resp) py_iter = Inr issues" by simp
  have step: "Github_pages (Suc n) lib yield s w url =
           (case next_url (link resp) of
              Inl e \<Rightarrow> Some (s @ issues, Some e, w')
            | Inr url' \<Rightarrow> Github_pages n lib yield (s @ issues) w' url')"
    by (rule Github_pages_step [OF assms(1,2) it]) (rule feed_yield)
  show ?thesis
  proof (intro conjI impI allI)
    assume "link resp = None"
    with step show "Github_pages (Suc n) lib yield s w url = Some (s @ issues, None, w')"
      by (simp add: next_url_absent Github_pages_Nil)
  next
    fix h
    assume "link resp = Some h \<and>
      (\<exists>l \<in> set (split_on CHR '','' h). count_list l CHR '';'' \<noteq> 1)"
    with step next_url_malformed [of h]
    show "Github_pages (Suc n) lib yield s w url = Some (s @ issues, Some ValueError, w')"
      by simp
  next
    fix h
    assume h: "link resp = Some h \<and>
      (\<forall>l \<in> set (split_on CHR '','' h). count_list l CHR '';'' = 1)"
    then obtain u where "next_url (Some h) = Inr u"
      using next_url_wellformed [of h] by blast
    with step h
    show "\<exists>u. next_url (Some h) = Inr u \<and>
            Github_pages (Suc n) lib yield s w url = Github_pages n lib yield (s @ issues) w' u"
      by simp
  next
    fix h
    assume h: "link resp = Some h \<and>
      (\<forall>l \<in> set (split_on CHR '','' h). \<exists>k v. link_item l = Inr (k, v) \<and> k \<noteq> rel_next)"
    then have "next_url (Some h) = Inr []"
      using next_url_no_next [of h] by blast
    with step h
    show "Github_pages (Suc n) lib yield s w url = Some (s @ issues, None, w')"
      by (simp add: Github_pages_Nil)
  qed
qed

theorem absent_link_header_stops_witness:
  "Github_pages 1 mock_lib yield []
     [\<lparr>body = Inr (JArr [plain_issue]), link = None\<rparr>]
     ''https://api.github.com/repos/acme/widgets/issues?per_page=100'' =
     Some ([plain_issue], None, []) \<and>
   Github_pages 1 mock_lib yield []
     [\<lparr>body = Inr (JArr [plain_issue]), link = Some ''garbage''\<rparr>]
     ''https://api.github.com/repos/acme/widgets/issues?per_page=100'' =
     Some ([plain_issue], Some ValueError, []) \<and>
   Github_pages 1 mock_lib yield []
     [\<lparr>body = Inr (JArr [plain_issue]), link = Some ''<https://example.org/2>; rel=next''\<rparr>]
     ''https://api.github.com/repos/acme/widgets/issues?per_page=100'' =
     Some ([plain_issue], None, [])"
proof -
  let ?url = "''https://api.github.com/repos/acme/widgets/issues?per_page=100''"
  let ?absent = "\<lparr>body = Inr (JArr [plain_issue]), link = None\<rparr>"
  let ?garbage = "\<lparr>body = Inr (JArr [plain_issue]), link = Some ''garbage''\<rparr>"
  let ?unquoted = "\<lparr>body = Inr (JArr [plain_issue]),
      link = Some ''<https://example.org/2>; rel=next''\<rparr>"
  have url: "?url \<noteq> []" by simp
  have "urlopen mock_lib [?absent] ?url = (Inr ?absent, [])"
    and "body ?absent = Inr (JArr [plain_issue])"
    by (simp_all add: mock_lib_def)
  from absent_link_header_stops [OF url this, of 0 "[]"]
  have a: "Github_pages 1 mock_lib yield [] [?absent] ?url = Some ([plain_issue], None, [])"
    by simp
  have "urlopen mock_lib [?garbage] ?url = (Inr ?garbage, [])"
    and "body ?garbage = Inr (JArr [plain_issue])"
    by (simp_all add: mock_lib_def)
  from absent_link_header_stops [OF url this, of 0 "[]"]
  have "\<forall>h. link ?garbage = Some h \<and>
               (\<exists>l \<in> set (split_on CHR '','' h). count_list l CHR '';'' \<noteq> 1) \<longrightarrow>
            Github_pages (Suc 0) mock_lib yield [] [?garbage] ?url =
              Some ([] @ [plain_issue], Some ValueError, [])"
    by (elim conjE)
  then have g: "Github_pages 1 mock_lib yield [] [?garbage] ?url =
      Some ([plain_issue], Some ValueError, [])"
    by simp
  have "urlopen mock_lib [?unquoted] ?url = (Inr ?unquoted, [])"
    and "body ?unquoted = Inr (JArr [plain_issue])"
    by (simp_all add: mock_lib_def)
  from absent_link_header_stops [OF url this, of 0 "[]"]
  have "\<forall>h. link ?unquoted = Some h \<and>
               (\<forall>l \<in> set (split_on CHR '','' h).
                  \<exists>k v. link_item l = Inr (k, v) \<and> k \<noteq> rel_next) \<longrightarrow>
            Github_pages (Suc 0) mock_lib yield [] [?unquoted] ?url =
              Some ([] @ [plain_issue], None, [])"
    by (elim conjE)
  moreover have "link_item ''<https://example.org/2>; rel=next'' =
      Inr (''rel=next'', ''<https://example.org/2>'')"
    by (simp add: link_item_def strip_def strip_chars_def whitespace_def)
  ultimately have u: "Github_pages 1 mock_lib yield [] [?unquoted] ?url =
      Some ([plain_issue], None, [])"
    by (simp add: rel_next_def)
  from a g u show ?thesis by (intro conjI)
qed

text \<open>The claim as written fails for a malformed header: a \<open>Link\<close> header without a
  semicolon makes \<open>get_issues\<close> raise \<open>ValueError\<close> where the claim has it stop silently.\<close>

theorem malformed_link_header_counterexample:
  "Github_get_issues 1 mock_lib yield []
     [\<lparr>body = Inr (JArr [plain_issue]), link = Some ''garbage''\<rparr>]
     (FStr ''acme'') (FStr ''widgets'') [] =
     Some ([plain_issue], Some ValueError, [])"
proof -
  have "next_url (Some ''garbage'') = Inl ValueError"
    by (simp add: next_url_def link_item_def strip_def strip_chars_def whitespace_def)
  then show ?thesis
    by (simp add: Github_get_issues_def first_url_example)
       (simp add: mock_lib_def yield_def)
qed

end
